theory Spec2Isabelle
  imports Main
begin

section \<open>The store of the scraping orchestrator\<close>

text \<open>
  The Go package \<open>pg\<close> talks to PostgreSQL through SQL statements. Each table is modelled
  as the list of its rows in scan order, each statement as a function on those lists, and
  each Go method as a function from the store to a result and the store it leaves behind.
  A query with no \<open>ORDER BY\<close> returns rows in scan order; \<open>now()\<close> is an argument.
  Identifiers (\<open>uuid\<close>) only need equality, timestamps only need their order.
  The connection is taken to be healthy, so every error of the model is one that the
  statement itself raises, with one exception: \<open>Write\<close> answers a failed \<open>BeginTx\<close> with
  a nil error, and the outcome of \<open>BeginTx\<close> is an argument of its model. Every other
  method returns the error of a failed connection and writes nothing.
\<close>

type_synonym uuid = nat
type_synonym time = int

datatype error = ErrNoRows | ErrorString string | NoPluginFound | Panic string

text \<open>
  Modelled from the spec: the type \<open>discollect.Config\<close> is not in the sources; it is a
  plugin-owned payload next to the well-known list of entrypoints.
\<close>

record Config =
  Entrypoints :: "string list"
  Payload :: string

datatype scrape_state = WAITING | RUNNING | SUCCESS | ERRORED

text \<open>A row of the table \<open>scrapes\<close>, with the columns the statements of the package name.\<close>

record scrape_row =
  sc_id :: uuid
  sc_feed_id :: uuid
  sc_plugin :: string
  sc_config :: Config
  sc_created_at :: time
  sc_scheduled_start_at :: time
  sc_started_at :: "time option"
  sc_ended_at :: "time option"
  sc_state :: scrape_state
  sc_errors :: "string list"
  sc_total_datums :: int
  sc_total_retries :: int
  sc_total_tasks :: int

record feed_row =
  fd_id :: uuid
  fd_title :: string
  fd_plugin :: string
  fd_url :: string

record session_row =
  se_key :: string
  se_user_id :: uuid
  se_active :: bool

text \<open>
  A membership row. \<open>user_id\<close> is the value of a scalar subquery and may be NULL;
  \<open>folder_id\<close> is the text the caller sent.
\<close>

record feed_folder_row =
  ff_user_id :: "uuid option"
  ff_folder_id :: string
  ff_feed_id :: uuid

text \<open>
  A row of \<open>posts\<close>. \<open>feed_id\<close> is the value of a scalar subquery and may be NULL;
  \<open>body\<close> holds the compressed text.
\<close>

record post_row =
  po_id :: uuid
  po_feed_id :: "uuid option"
  po_content_hash :: string
  po_title :: string
  po_author :: string
  po_body :: string
  po_url :: string
  po_posted_at :: time
  po_created_at :: time

record DB =
  feeds :: "feed_row list"
  sessions :: "session_row list"
  feed_folders :: "feed_folder_row list"
  posts :: "post_row list"
  scrapes :: "scrape_row list"

subsection \<open>StartScrapes\<close>

text \<open>
  The Go value \<open>discollect.Scrape\<close> as \<open>StartScrapes\<close> fills it: only the four columns of
  the \<open>RETURNING\<close> clause are scanned, every other field keeps Go's zero value.
\<close>

record Scrape =
  Scrape_ID :: uuid
  Scrape_FeedID :: uuid
  Scrape_Plugin :: string
  Scrape_Config :: Config

definition returning_scrape :: "scrape_row \<Rightarrow> Scrape" where
  "returning_scrape r =
     \<lparr>Scrape_ID = sc_id r, Scrape_FeedID = sc_feed_id r,
      Scrape_Plugin = sc_plugin r, Scrape_Config = sc_config r\<rparr>"

text \<open>The \<open>WHERE\<close> clause of the selecting statement.\<close>

definition claimable :: "time \<Rightarrow> scrape_row \<Rightarrow> bool" where
  "claimable now r \<longleftrightarrow>
     sc_scheduled_start_at r \<le> now \<and> sc_state r = WAITING \<and> length (sc_errors r) < 3"

definition mark_running :: "time \<Rightarrow> scrape_row \<Rightarrow> scrape_row" where
  "mark_running now r = r\<lparr>sc_state := RUNNING, sc_started_at := Some now\<rparr>"

text \<open>
  \<open>StartScrapes\<close>: select the ids of at most \<open>limit\<close> claimable rows, skipping rows that
  another transaction holds locked (\<open>FOR UPDATE SKIP LOCKED\<close>, the argument \<open>locked\<close>);
  with no id, return the empty result; otherwise update every row whose id is among
  them and return the updated rows. PostgreSQL rejects a negative \<open>LIMIT\<close>.
\<close>

definition StartScrapes ::
  "(uuid \<Rightarrow> bool) \<Rightarrow> time \<Rightarrow> int \<Rightarrow> DB \<Rightarrow> (error + Scrape list) \<times> DB" where
  "StartScrapes locked now limit db =
     (if limit < 0 then (Inl (ErrorString ''LIMIT must not be negative''), db)
      else
        let ids = map sc_id (take (nat limit)
                    (filter (\<lambda>r. claimable now r \<and> \<not> locked (sc_id r)) (scrapes db)))
        in if length ids = 0 then (Inr [], db)
           else
             let rows' = map (\<lambda>r. if sc_id r \<in> set ids then mark_running now r else r)
                           (scrapes db);
                 ss = map returning_scrape (filter (\<lambda>r. sc_id r \<in> set ids) rows')
             in (Inr ss, db\<lparr>scrapes := rows'\<rparr>))"

subsection \<open>EndScrape and ErrorScrape\<close>

text \<open>
  \<open>EndScrape\<close>: one \<open>UPDATE ... WHERE id = $4 RETURNING state\<close>. With no row of that id the
  scan of the result fails with \<open>sql.ErrNoRows\<close>; otherwise the returned state is compared
  with the text \<open>SUCCESS\<close>.
\<close>

definition mark_success :: "time \<Rightarrow> int \<Rightarrow> int \<Rightarrow> int \<Rightarrow> scrape_row \<Rightarrow> scrape_row" where
  "mark_success now datums retries tasks r =
     r\<lparr>sc_state := SUCCESS, sc_ended_at := Some now, sc_total_datums := datums,
       sc_total_retries := retries, sc_total_tasks := tasks\<rparr>"

definition EndScrape :: "time \<Rightarrow> uuid \<Rightarrow> int \<Rightarrow> int \<Rightarrow> int \<Rightarrow> DB \<Rightarrow> error option \<times> DB" where
  "EndScrape now sid datums retries tasks db =
     (let rows' = map (\<lambda>r. if sc_id r = sid then mark_success now datums retries tasks r else r)
                    (scrapes db);
          db' = db\<lparr>scrapes := rows'\<rparr>
      in case filter (\<lambda>r. sc_id r = sid) rows' of
           [] \<Rightarrow> (Some ErrNoRows, db')
         | r # _ \<Rightarrow>
             if sc_state r \<noteq> SUCCESS then (Some (ErrorString ''could not end scrape''), db')
             else (None, db'))"

text \<open>\<open>ErrorScrape\<close>: the body of the Go method is the single statement \<open>return nil\<close>.\<close>

definition ErrorScrape :: "uuid \<Rightarrow> error \<Rightarrow> DB \<Rightarrow> error option \<times> DB" where
  "ErrorScrape sid err db = (None, db)"

subsection \<open>Write\<close>

text \<open>
  The Go value \<open>hydrocarbon.Post\<close>, with the fields the package reads and writes. A fact
  is an \<open>interface{}\<close>: either a pointer to a post, or a value of any other dynamic type
  (named here by a description of it).
\<close>

record Post =
  Post_ID :: string
  Post_PostedAt :: time
  Post_Title :: string
  Post_Body :: string
  Post_Author :: string
  Post_OriginalURL :: string
  Post_Read :: bool

datatype Fact = PostPtr Post | NotPost string

text \<open>
  What \<open>Write\<close> uses and the sources do not hold, taken as parameters: the method
  \<open>ContentHash\<close> of a post, the function \<open>compressText\<close>, and the row constraints that the
  declaration of the table \<open>posts\<close> puts on a proposed row (\<open>NOT NULL\<close>, \<open>CHECK\<close>), which
  PostgreSQL checks before it looks for a conflict.
\<close>

record write_env =
  ContentHash :: "Post \<Rightarrow> string"
  compressText :: "string \<Rightarrow> error + string"
  posts_check :: "post_row \<Rightarrow> bool"

text \<open>The calls \<open>Write\<close> makes on the connection, in order.\<close>

datatype db_call = BeginTx | QueryContentHash | ExecInsertPost | Commit | Rollback

text \<open>
  A scalar subquery yields NULL for no row, the value for one row, and raises an error
  for more than one.
\<close>

definition scalar_subquery :: "'a list \<Rightarrow> error + 'a option" where
  "scalar_subquery xs =
     (case xs of
        [] \<Rightarrow> Inr None
      | [x] \<Rightarrow> Inr (Some x)
      | _ \<Rightarrow> Inl (ErrorString ''more than one row returned by a subquery used as an expression''))"

text \<open>
  Modelled from the spec: the column default of a primary key \<open>id\<close> is declared with the
  tables, which are not in the sources; an id is a stable identity, so the default yields
  an id that no row of the table has.
\<close>

definition fresh_uuid :: "uuid list \<Rightarrow> uuid" where
  "fresh_uuid ids = Suc (fold max ids 0)"

text \<open>
  \<open>INSERT ... ON CONFLICT (url) DO UPDATE SET title, author, body, content_hash\<close>: a row
  with the proposed url is overwritten in those four columns, and only with no such row
  is the proposed row added.
\<close>

definition refresh_post :: "post_row \<Rightarrow> post_row \<Rightarrow> post_row" where
  "refresh_post new r =
     r\<lparr>po_title := po_title new, po_author := po_author new, po_body := po_body new,
       po_content_hash := po_content_hash new\<rparr>"

definition upsert_post :: "post_row \<Rightarrow> post_row list \<Rightarrow> post_row list" where
  "upsert_post new rows =
     (if po_url new \<in> set (map po_url rows)
      then map (\<lambda>r. if po_url r = po_url new then refresh_post new r else r) rows
      else rows @ [new])"

text \<open>
  The inserting statement of \<open>Write\<close>. \<open>feed_id\<close> is the scalar subquery on the scrape;
  \<open>id\<close> and \<open>created_at\<close> take their column defaults (a fresh id, the time of the insert).
\<close>

definition proposed_post ::
  "write_env \<Rightarrow> time \<Rightarrow> uuid option \<Rightarrow> Post \<Rightarrow> string \<Rightarrow> DB \<Rightarrow> post_row" where
  "proposed_post env now feed hcp body db =
     \<lparr>po_id = fresh_uuid (map po_id (posts db)), po_feed_id = feed,
      po_content_hash = ContentHash env hcp, po_title = Post_Title hcp,
      po_author = Post_Author hcp, po_body = body, po_url = Post_OriginalURL hcp,
      po_posted_at = Post_PostedAt hcp, po_created_at = now\<rparr>"

definition insert_post ::
  "write_env \<Rightarrow> time \<Rightarrow> uuid \<Rightarrow> Post \<Rightarrow> string \<Rightarrow> DB \<Rightarrow> error + post_row list" where
  "insert_post env now scrapeID hcp body db =
     (case scalar_subquery (map sc_feed_id (filter (\<lambda>r. sc_id r = scrapeID) (scrapes db))) of
        Inl e \<Rightarrow> Inl e
      | Inr feed \<Rightarrow>
          let new = proposed_post env now feed hcp body db
          in if \<not> posts_check env new
             then Inl (ErrorString ''new row for relation posts violates a constraint'')
             else Inr (upsert_post new (posts db)))"

text \<open>
  \<open>Write\<close>: the type assertion first; then \<open>BeginTx\<close>, whose error (the argument
  \<open>beginTx\<close>: \<open>None\<close> when the transaction begins) is answered with \<open>return nil\<close>; then,
  inside the transaction, the query for the content hash (\<open>validHash\<close> stays the empty
  string when no row is found), the early return when \<open>validHash\<close> is not empty, the
  compression, and the insert. Every return of the transaction but the last rolls it
  back.
\<close>

definition Write ::
  "write_env \<Rightarrow> error option \<Rightarrow> time \<Rightarrow> uuid \<Rightarrow> Fact \<Rightarrow> DB
     \<Rightarrow> error option \<times> db_call list \<times> DB" where
  "Write env beginTx now scrapeID f db =
     (case f of
        NotPost _ \<Rightarrow>
          (Some (ErrorString ''unable to write non *hydrocarbon.Post struct''), [], db)
      | PostPtr hcp \<Rightarrow>
          (case beginTx of
             Some err \<Rightarrow> (None, [BeginTx], db)
           | None \<Rightarrow>
               let contentHash = ContentHash env hcp;
                   validHash = (case filter (\<lambda>r. po_content_hash r = contentHash) (posts db) of
                                  [] \<Rightarrow> []
                                | r # _ \<Rightarrow> po_content_hash r)
               in if validHash \<noteq> [] then (None, [BeginTx, QueryContentHash, Rollback], db)
                  else
                    (case compressText env (Post_Body hcp) of
                       Inl e \<Rightarrow> (Some e, [BeginTx, QueryContentHash, Rollback], db)
                     | Inr body \<Rightarrow>
                         (case insert_post env now scrapeID hcp body db of
                            Inl e \<Rightarrow>
                              (Some e, [BeginTx, QueryContentHash, ExecInsertPost, Rollback], db)
                          | Inr posts' \<Rightarrow>
                              (None, [BeginTx, QueryContentHash, ExecInsertPost, Commit],
                               db\<lparr>posts := posts'\<rparr>)))))"

subsection \<open>FindMissingSchedules and InsertSchedule\<close>

text \<open>
  The rows come back as JSON and are unmarshalled into \<open>discollect.Scrape\<close> and
  \<open>hydrocarbon.Post\<close>, whose declarations are not in the sources: a request carries the
  rows themselves.
\<close>

record ScheduleRequest =
  SR_FeedID :: uuid
  SR_Plugin :: string
  SR_LatestScrapes :: "scrape_row list"
  SR_LatestDatums :: "post_row list"

record ScrapeSchedule =
  SS_Config :: Config
  SS_ScheduledStartAt :: time

text \<open>\<open>ORDER BY k DESC\<close>, then \<open>LIMIT 10\<close>: the two lateral subqueries.\<close>

definition order_desc :: "('a \<Rightarrow> time) \<Rightarrow> 'a list \<Rightarrow> 'a list" where
  "order_desc k xs = rev (sort_key k xs)"

definition lateral_scrapes :: "uuid \<Rightarrow> DB \<Rightarrow> scrape_row list" where
  "lateral_scrapes fid db =
     take 10 (order_desc sc_scheduled_start_at (filter (\<lambda>r. sc_feed_id r = fid) (scrapes db)))"

definition lateral_posts :: "uuid \<Rightarrow> DB \<Rightarrow> post_row list" where
  "lateral_posts fid db =
     take 10 (order_desc po_posted_at (filter (\<lambda>r. po_feed_id r = Some fid) (posts db)))"

text \<open>
  The joined rows of one feed: every scrape row of the first subquery (an inner join, so
  a feed with no scrape has no joined row) beside every post row of the second (a left
  join, so with no post there is one joined row whose post columns are NULL).
\<close>

definition left_join :: "'a list \<Rightarrow> 'a option list" where
  "left_join ps = (if ps = [] then [None] else map Some ps)"

definition joined_rows :: "uuid \<Rightarrow> DB \<Rightarrow> (scrape_row \<times> post_row option) list" where
  "joined_rows fid db = List.product (lateral_scrapes fid db) (left_join (lateral_posts fid db))"

definition has_waiting :: "uuid \<Rightarrow> DB \<Rightarrow> bool" where
  "has_waiting fid db = (filter (\<lambda>r. sc_feed_id r = fid \<and> sc_state r = WAITING) (scrapes db) \<noteq> [])"

text \<open>
  The group of one feed (\<open>GROUP BY f.id\<close>, the primary key): both aggregates run over
  all joined rows of the group, the second one filtered to the rows whose post is not NULL.
\<close>

definition feed_group :: "DB \<Rightarrow> feed_row \<Rightarrow> ScheduleRequest list" where
  "feed_group db f =
     (let j = joined_rows (fd_id f) db
      in if j = [] \<or> has_waiting (fd_id f) db then []
         else [\<lparr>SR_FeedID = fd_id f, SR_Plugin = fd_plugin f,
                 SR_LatestScrapes = map fst (order_desc (\<lambda>x. sc_scheduled_start_at (fst x)) j),
                 SR_LatestDatums = order_desc po_created_at (List.map_filter snd j)\<rparr>])"

definition FindMissingSchedules :: "int \<Rightarrow> DB \<Rightarrow> error + ScheduleRequest list" where
  "FindMissingSchedules limit db =
     (if limit < 0 then Inl (ErrorString ''LIMIT must not be negative'')
      else Inr (take (nat limit) (concat (map (feed_group db) (feeds db)))))"

text \<open>
  One \<open>INSERT ... ON CONFLICT ON CONSTRAINT scrapes_plugin_scheduled_start_at_config_key
  DO NOTHING\<close>: a row with the same plugin, start time and config makes the statement
  a no-op. Every value the statement binds is a Go value, so no column of the new row
  is NULL.
\<close>

definition same_schedule :: "ScheduleRequest \<Rightarrow> ScrapeSchedule \<Rightarrow> scrape_row \<Rightarrow> bool" where
  "same_schedule sr s r \<longleftrightarrow>
     sc_plugin r = SR_Plugin sr \<and> sc_scheduled_start_at r = SS_ScheduledStartAt s
     \<and> sc_config r = SS_Config s"

text \<open>
  Modelled from the spec: the column defaults of \<open>scrapes\<close> are declared with the table,
  which is not in the sources. The store inserts each schedule as a \<open>WAITING\<close> scrape;
  the columns the statement leaves out are those of a scrape that has not run (no start
  or end time, no error, counters at zero), and \<open>created_at\<close> is the time of the insert.
\<close>

definition scheduled_row :: "time \<Rightarrow> uuid \<Rightarrow> ScheduleRequest \<Rightarrow> ScrapeSchedule \<Rightarrow> scrape_row" where
  "scheduled_row now new_id sr s =
     \<lparr>sc_id = new_id, sc_feed_id = SR_FeedID sr, sc_plugin = SR_Plugin sr,
      sc_config = SS_Config s, sc_created_at = now,
      sc_scheduled_start_at = SS_ScheduledStartAt s, sc_started_at = None,
      sc_ended_at = None, sc_state = WAITING, sc_errors = [], sc_total_datums = 0,
      sc_total_retries = 0, sc_total_tasks = 0\<rparr>"

text \<open>
  What the declaration of \<open>scrapes\<close> (not in the sources) makes of a new row, taken as
  parameters: the row constraints (\<open>scrapes_check\<close>: \<open>NOT NULL\<close>, \<open>CHECK\<close>), which
  PostgreSQL checks before it looks for a conflict, and the constraints on a row that is
  inserted (\<open>scrapes_accepts\<close>: foreign keys, the other unique keys), which a row skipped
  by the conflict clause never meets. A violation is the error of the statement.
\<close>

record scrapes_table =
  scrapes_check :: "scrape_row \<Rightarrow> bool"
  scrapes_accepts :: "DB \<Rightarrow> scrape_row \<Rightarrow> bool"

definition insert_schedule_row ::
  "scrapes_table \<Rightarrow> time \<Rightarrow> ScheduleRequest \<Rightarrow> ScrapeSchedule \<Rightarrow> DB \<Rightarrow> error + DB" where
  "insert_schedule_row tbl now sr s db =
     (let row = scheduled_row now (fresh_uuid (map sc_id (scrapes db))) sr s
      in if \<not> scrapes_check tbl row
         then Inl (ErrorString ''new row for relation scrapes violates a constraint'')
         else if filter (same_schedule sr s) (scrapes db) \<noteq> [] then Inr db
         else if \<not> scrapes_accepts tbl db row
         then Inl (ErrorString ''insert on table scrapes violates a constraint'')
         else Inr (db\<lparr>scrapes := scrapes db @ [row]\<rparr>))"

text \<open>
  \<open>InsertSchedule\<close>: the loop over the schedules, one statement each, outside any
  transaction: the error of a statement ends the loop and is returned, and the rows
  inserted before it stay.
\<close>

fun InsertSchedule ::
  "scrapes_table \<Rightarrow> time \<Rightarrow> ScheduleRequest \<Rightarrow> ScrapeSchedule list \<Rightarrow> DB
     \<Rightarrow> error option \<times> DB" where
  "InsertSchedule tbl now sr [] db = (None, db)"
| "InsertSchedule tbl now sr (s # ss) db =
     (case insert_schedule_row tbl now sr s db of
        Inl err \<Rightarrow> (Some err, db)
      | Inr db' \<Rightarrow> InsertSchedule tbl now sr ss db')"

subsection \<open>CheckIfFeedExists\<close>

text \<open>The Go value \<open>hydrocarbon.Feed\<close> as \<open>CheckIfFeedExists\<close> fills it.\<close>

record Feed =
  Feed_ID :: uuid
  Feed_Title :: string

text \<open>
  \<open>CheckIfFeedExists\<close>: the first feed row with this url and plugin; with none, the result
  is \<open>(nil, false, nil)\<close>. Otherwise one membership row is inserted, whose user is the
  scalar subquery on the session key. What the declaration of \<open>feed_folders\<close> (not in
  the sources) makes of the new row is the parameter \<open>ff_accepts\<close>: a rejected row is the
  error that \<open>ExecContext\<close> returns.
\<close>

definition CheckIfFeedExists ::
  "(DB \<Rightarrow> feed_folder_row \<Rightarrow> bool) \<Rightarrow> string \<Rightarrow> string \<Rightarrow> string \<Rightarrow> string \<Rightarrow> DB
     \<Rightarrow> (Feed option \<times> bool \<times> error option) \<times> DB" where
  "CheckIfFeedExists ff_accepts sessionKey folderID plugin url db =
     (case filter (\<lambda>f. fd_url f = url \<and> fd_plugin f = plugin) (feeds db) of
        [] \<Rightarrow> ((None, False, None), db)
      | f # _ \<Rightarrow>
          (case scalar_subquery
                  (map se_user_id (filter (\<lambda>s. se_key s = sessionKey) (sessions db))) of
             Inl e \<Rightarrow> ((None, False, Some e), db)
           | Inr user \<Rightarrow>
               let row = \<lparr>ff_user_id = user, ff_folder_id = folderID, ff_feed_id = fd_id f\<rparr>
               in if \<not> ff_accepts db row
                  then ((None, False,
                         Some (ErrorString ''new row for relation feed_folders violates a constraint'')),
                        db)
                  else ((Some \<lparr>Feed_ID = fd_id f, Feed_Title = fd_title f\<rparr>, True, None),
                        db\<lparr>feed_folders := feed_folders db @ [row]\<rparr>)))"

section \<open>The feed API\<close>

text \<open>
  A plugin, with the fields \<open>AddFeed\<close> and the resolution use. \<open>HandlerOpts\<close> is what the
  resolution hands to the config creator. \<open>ConfigCreator\<close> is a field of function type,
  which a plugin may leave unset (the plugin \<open>fictionpress\<close> sets none): \<open>None\<close> is the nil
  function. A function that is set is taken to return.
\<close>

record HandlerOpts =
  RouteParams :: "string list"

record Plugin =
  Name :: string
  ConfigValidator :: "Config \<Rightarrow> error option"
  ConfigCreator :: "(string \<Rightarrow> HandlerOpts \<Rightarrow> error + (string \<times> Config)) option"

text \<open>
  Modelled from the spec: \<open>Discollector.PluginForEntrypoint\<close> is not in the sources. It
  returns the first plugin whose \<open>ConfigValidator\<close> accepts the url and whose name is not
  in the blacklist, and fails with \<open>NoPluginFound\<close> otherwise. The validator is asked
  about the config whose only entrypoint is the url; no route has been matched, so the
  handler options carry no route parameter.
\<close>

definition accepts_url :: "Plugin \<Rightarrow> string \<Rightarrow> bool" where
  "accepts_url p url \<longleftrightarrow> ConfigValidator p \<lparr>Entrypoints = [url], Payload = []\<rparr> = None"

fun PluginForEntrypoint ::
  "Plugin list \<Rightarrow> string \<Rightarrow> string list \<Rightarrow> error + (Plugin \<times> HandlerOpts)" where
  "PluginForEntrypoint [] url blacklist = Inl NoPluginFound"
| "PluginForEntrypoint (p # ps) url blacklist =
     (if accepts_url p url \<and> Name p \<notin> set blacklist then Inr (p, \<lparr>RouteParams = []\<rparr>)
      else PluginForEntrypoint ps url blacklist)"

text \<open>
  The interface \<open>FeedStore\<close>, as far as \<open>AddFeed\<close> calls it, over any store state \<open>'st\<close>.
\<close>

record 'st FeedStore =
  fs_CheckIfFeedExists ::
    "string \<Rightarrow> string \<Rightarrow> string \<Rightarrow> string \<Rightarrow> 'st \<Rightarrow> (Feed option \<times> bool \<times> error option) \<times> 'st"
  fs_AddFeed ::
    "string \<Rightarrow> string \<Rightarrow> string \<Rightarrow> string \<Rightarrow> string \<Rightarrow> Config \<Rightarrow> 'st \<Rightarrow> (error + uuid) \<times> 'st"

definition maxFailedResolutions :: nat where
  "maxFailedResolutions = 8"

text \<open>
  \<open>return writeSuccess(w, ...)\<close>: the function \<open>writeSuccess\<close> is not in the sources and is
  a parameter, the error it returns for an id and a title (\<open>None\<close> when the response is
  written). Its error is the error of \<open>AddFeed\<close>; \<open>Inr (id, title)\<close> is the response
  written with a nil return.
\<close>

definition respond ::
  "(uuid \<times> string \<Rightarrow> error option) \<Rightarrow> uuid \<times> string \<Rightarrow> 'st \<Rightarrow> (error + (uuid \<times> string)) \<times> 'st" where
  "respond writeSuccess answer st =
     (case writeSuccess answer of
        Some err \<Rightarrow> (Inl err, st)
      | None \<Rightarrow> (Inr answer, st))"

text \<open>
  The \<open>for\<close> loop of \<open>FeedAPI.AddFeed\<close>, from the blacklist it has reached; where the loop
  breaks, the statement after the loop (\<open>return writeSuccess\<close>) is run. Reading
  \<open>dbFeed.ID\<close> when the store answers \<open>ok\<close> with a nil feed, and calling a nil
  \<open>ConfigCreator\<close>, are nil dereferences: the panic ends the call.
\<close>

function AddFeed_loop ::
  "'st FeedStore \<Rightarrow> Plugin list \<Rightarrow> (uuid \<times> string \<Rightarrow> error option) \<Rightarrow> string \<Rightarrow> string
     \<Rightarrow> string \<Rightarrow> string list \<Rightarrow> 'st \<Rightarrow> (error + (uuid \<times> string)) \<times> 'st" where
  "AddFeed_loop S reg writeSuccess key folderID url blacklist st =
     (case PluginForEntrypoint reg url blacklist of
        Inl err \<Rightarrow> (Inl err, st)
      | Inr (plugin, handlerOpts) \<Rightarrow>
          (case fs_CheckIfFeedExists S key folderID (Name plugin) url st of
             ((dbFeed, ok, Some err), st1) \<Rightarrow> (Inl err, st1)
           | ((dbFeed, ok, None), st1) \<Rightarrow>
               if ok then
                 (case dbFeed of
                    None \<Rightarrow> (Inl (Panic ''nil pointer dereference''), st1)
                  | Some f \<Rightarrow> respond writeSuccess (Feed_ID f, Feed_Title f) st1)
               else
                 (case ConfigCreator plugin of
                    None \<Rightarrow> (Inl (Panic ''nil pointer dereference''), st1)
                  | Some create \<Rightarrow>
                      (case create url handlerOpts of
                         Inl err \<Rightarrow>
                           if length blacklist = maxFailedResolutions then (Inl err, st1)
                           else AddFeed_loop S reg writeSuccess key folderID url
                                  (blacklist @ [Name plugin]) st1
                       | Inr (feedTitle, initialConfig) \<Rightarrow>
                           (case fs_AddFeed S key folderID feedTitle (Name plugin) url
                                   initialConfig st1 of
                              (Inl err, st2) \<Rightarrow> (Inl err, st2)
                            | (Inr new_id, st2) \<Rightarrow>
                                respond writeSuccess (new_id, feedTitle) st2)))))"
  by pat_completeness auto
termination
proof (relation "measure (\<lambda>(S, reg, writeSuccess, key, folderID, url, blacklist, st).
                   length (filter (\<lambda>p. Name p \<notin> set blacklist) reg))")
  show "wf (measure (\<lambda>(S :: 'st FeedStore, reg, writeSuccess :: uuid \<times> string \<Rightarrow> error option,
                       key :: string, folderID :: string, url :: string, blacklist, st :: 'st).
                   length (filter (\<lambda>p. Name p \<notin> set blacklist) reg)))"
    by simp
next
  fix S :: "'st FeedStore" and reg key folderID url blacklist and st :: 'st
    and writeSuccess :: "uuid \<times> string \<Rightarrow> error option"
    and x plugin handlerOpts
  assume r: "PluginForEntrypoint reg url blacklist = Inr x" and x: "(plugin, handlerOpts) = x"
  have found: "plugin \<in> set reg \<and> Name plugin \<notin> set blacklist"
    if "PluginForEntrypoint ps url blacklist = Inr (plugin, handlerOpts)"
      and "set ps \<subseteq> set reg" for ps
    using that by (induction ps) (auto split: if_splits)
  from r x have "plugin \<in> set reg" and "Name plugin \<notin> set blacklist"
    using found[of reg] by auto
  then have "plugin \<in> set (filter (\<lambda>p. Name p \<notin> set blacklist) reg)"
    by simp
  then have "length (filter (\<lambda>p. Name p \<noteq> Name plugin)
                       (filter (\<lambda>p. Name p \<notin> set blacklist) reg))
           < length (filter (\<lambda>p. Name p \<notin> set blacklist) reg)"
    by (rule length_filter_less) simp
  moreover have "filter (\<lambda>p. Name p \<notin> set (blacklist @ [Name plugin])) reg
               = filter (\<lambda>p. Name p \<noteq> Name plugin)
                   (filter (\<lambda>p. Name p \<notin> set blacklist) reg)"
    by (auto intro: filter_cong)
  ultimately have "length (filter (\<lambda>p. Name p \<notin> set (blacklist @ [Name plugin])) reg)
           < length (filter (\<lambda>p. Name p \<notin> set blacklist) reg)"
    by simp
  then show "((S, reg, writeSuccess, key, folderID, url, blacklist @ [Name plugin], st1),
              S, reg, writeSuccess, key, folderID, url, blacklist, st) \<in> measure
               (\<lambda>(S, reg, writeSuccess, key, folderID, url, blacklist, st).
                   length (filter (\<lambda>p. Name p \<notin> set blacklist) reg))" for st1 :: 'st
    by simp
qed

declare AddFeed_loop.simps [simp del]

text \<open>
  \<open>FeedAPI.AddFeed\<close>. The key signer's \<open>Verify\<close> and the body decoder \<open>limitDecoder\<close> are
  not in the sources and are parameters, as \<open>writeSuccess\<close> is; a request is its key
  header and its body, and the decoded body is the folder id and the url.
\<close>

record Request =
  X_Hydrocarbon_Key :: string
  Body :: string

record 'st FeedAPI =
  api_s :: "'st FeedStore"
  api_ks_Verify :: "string \<Rightarrow> error + string"
  api_dc_plugins :: "Plugin list"

definition AddFeed ::
  "'st FeedAPI \<Rightarrow> (string \<Rightarrow> error + (string \<times> string)) \<Rightarrow> (uuid \<times> string \<Rightarrow> error option)
     \<Rightarrow> Request \<Rightarrow> 'st \<Rightarrow> (error + (uuid \<times> string)) \<times> 'st" where
  "AddFeed fa limitDecoder writeSuccess r st =
     (case api_ks_Verify fa (X_Hydrocarbon_Key r) of
        Inl err \<Rightarrow> (Inl err, st)
      | Inr key \<Rightarrow>
          (case limitDecoder (Body r) of
             Inl err \<Rightarrow> (Inl err, st)
           | Inr (folderID, url) \<Rightarrow>
               if url = [] then (Inl (ErrorString ''one of url or plugin is empty''), st)
               else AddFeed_loop (api_s fa) (api_dc_plugins fa) writeSuccess key folderID url
                      [] st))"

section \<open>Example stores\<close>

text \<open>Small concrete stores, on which the definitions are run.\<close>

definition ex_config :: Config where
  "ex_config = \<lparr>Entrypoints = [''https://example.com/1''], Payload = []\<rparr>"

definition ex_scrape :: "uuid \<Rightarrow> uuid \<Rightarrow> scrape_state \<Rightarrow> time \<Rightarrow> string list \<Rightarrow> scrape_row" where
  "ex_scrape sid fid st start errs =
     \<lparr>sc_id = sid, sc_feed_id = fid, sc_plugin = ''example'', sc_config = ex_config,
      sc_created_at = 1, sc_scheduled_start_at = start, sc_started_at = None,
      sc_ended_at = None, sc_state = st, sc_errors = errs, sc_total_datums = 0,
      sc_total_retries = 0, sc_total_tasks = 0\<rparr>"

definition ex_empty :: DB where
  "ex_empty = \<lparr>feeds = [], sessions = [], feed_folders = [], posts = [], scrapes = []\<rparr>"

text \<open>
  Five scrapes of five feeds: one due, one scheduled for later, one with three errors,
  one running, and a second one due.
\<close>

definition ex_queue :: DB where
  "ex_queue = ex_empty\<lparr>scrapes :=
     [ex_scrape 1 10 WAITING 5 [],
      ex_scrape 2 11 WAITING 200 [],
      ex_scrape 3 12 WAITING 5 [''e1'', ''e2'', ''e3''],
      ex_scrape 4 13 RUNNING 5 [],
      ex_scrape 5 14 WAITING 7 []]\<rparr>"

text \<open>
  An environment for \<open>Write\<close>: a content hash that joins the four hashed fields, a
  compression that always succeeds, and a table that requires a feed.
\<close>

definition ex_hash :: "Post \<Rightarrow> string" where
  "ex_hash p =
     ''h:'' @ Post_Title p @ ''|'' @ Post_Author p @ ''|'' @ Post_Body p @ ''|''
       @ Post_OriginalURL p"

definition ex_env :: write_env where
  "ex_env = \<lparr>ContentHash = ex_hash, compressText = (\<lambda>s. Inr (''z:'' @ s)),
             posts_check = (\<lambda>r. po_feed_id r \<noteq> None)\<rparr>"

definition ex_post :: "string \<Rightarrow> string \<Rightarrow> string \<Rightarrow> string \<Rightarrow> Post" where
  "ex_post title author body url =
     \<lparr>Post_ID = [], Post_PostedAt = 40, Post_Title = title, Post_Body = body,
      Post_Author = author, Post_OriginalURL = url, Post_Read = False\<rparr>"

text \<open>Two running scrapes, of feeds 10 and 11, and one post of feed 10.\<close>

definition ex_library :: DB where
  "ex_library = ex_empty\<lparr>
     scrapes := [ex_scrape 1 10 RUNNING 5 [], ex_scrape 2 11 RUNNING 5 []],
     posts := [\<lparr>po_id = 1, po_feed_id = Some 10,
                po_content_hash = ex_hash (ex_post ''A'' ''ann'' ''x'' ''u1''),
                po_title = ''A'', po_author = ''ann'', po_body = ''z:x'', po_url = ''u1'',
                po_posted_at = 40, po_created_at = 41\<rparr>]\<rparr>"

text \<open>The example library after scrape 2 has written a second post at time 50.\<close>

definition ex_library_B :: DB where
  "ex_library_B = ex_library\<lparr>posts := posts ex_library
     @ [\<lparr>po_id = 2, po_feed_id = Some 11, po_content_hash = ''h:B|bob|y|u2'',
         po_title = ''B'', po_author = ''bob'', po_body = ''z:y'', po_url = ''u2'',
         po_posted_at = 40, po_created_at = 50\<rparr>]\<rparr>"

text \<open>
  The example queue with its five feeds, under a table that requires the feed of a
  scrape to exist and its id to be new. A schedule for feed 13 at time 300, which no
  scrape holds; a schedule at time 7, which the waiting scrape of feed 14 holds; and
  the store after the first schedule has been inserted at time 100.
\<close>

definition ex_feed_at :: "uuid \<Rightarrow> string \<Rightarrow> feed_row" where
  "ex_feed_at fid url = \<lparr>fd_id = fid, fd_title = ''Example'', fd_plugin = ''example'', fd_url = url\<rparr>"

definition ex_planned :: DB where
  "ex_planned = ex_queue\<lparr>feeds :=
     [ex_feed_at 10 ''https://example.com/10'', ex_feed_at 11 ''https://example.com/11'',
      ex_feed_at 12 ''https://example.com/12'', ex_feed_at 13 ''https://example.com/13'',
      ex_feed_at 14 ''https://example.com/14'']\<rparr>"

definition ex_scrapes_table :: scrapes_table where
  "ex_scrapes_table =
     \<lparr>scrapes_check = (\<lambda>r. True),
      scrapes_accepts = (\<lambda>db r. sc_feed_id r \<in> set (map fd_id (feeds db))
                                  \<and> sc_id r \<notin> set (map sc_id (scrapes db)))\<rparr>"

definition ex_schedule_request :: ScheduleRequest where
  "ex_schedule_request =
     \<lparr>SR_FeedID = 13, SR_Plugin = ''example'', SR_LatestScrapes = [], SR_LatestDatums = []\<rparr>"

definition ex_schedule :: ScrapeSchedule where
  "ex_schedule = \<lparr>SS_Config = ex_config, SS_ScheduledStartAt = 300\<rparr>"

definition ex_taken_schedule :: ScrapeSchedule where
  "ex_taken_schedule = \<lparr>SS_Config = ex_config, SS_ScheduledStartAt = 7\<rparr>"

definition ex_planned_scheduled :: DB where
  "ex_planned_scheduled = ex_planned\<lparr>scrapes := scrapes ex_planned
     @ [(ex_scrape 6 13 WAITING 300 [])\<lparr>sc_created_at := 100\<rparr>]\<rparr>"

text \<open>
  One feed with two finished scrapes and two posts, and the same store with a session of
  user 7.
\<close>

definition ex_stored :: "uuid \<Rightarrow> uuid \<Rightarrow> string \<Rightarrow> time \<Rightarrow> time \<Rightarrow> post_row" where
  "ex_stored pid fid url posted created =
     \<lparr>po_id = pid, po_feed_id = Some fid, po_content_hash = ''h:'' @ url, po_title = ''T'',
      po_author = ''ann'', po_body = ''z:x'', po_url = url, po_posted_at = posted,
      po_created_at = created\<rparr>"

definition ex_url :: string where
  "ex_url = ''https://example.com/1''"

definition ex_feed :: feed_row where
  "ex_feed = \<lparr>fd_id = 20, fd_title = ''Example'', fd_plugin = ''example'', fd_url = ex_url\<rparr>"

definition ex_history :: DB where
  "ex_history = ex_empty\<lparr>
     feeds := [ex_feed],
     scrapes := [ex_scrape 6 20 SUCCESS 10 [], ex_scrape 7 20 SUCCESS 20 []],
     posts := [ex_stored 1 20 ''u1'' 11 12, ex_stored 2 20 ''u2'' 21 22]\<rparr>"

definition ex_accounts :: DB where
  "ex_accounts = ex_history\<lparr>sessions := [\<lparr>se_key = ''k1'', se_user_id = 7, se_active = True\<rparr>]\<rparr>"

text \<open>A membership table that requires a user and refuses a row it already holds.\<close>

definition ex_membership :: "DB \<Rightarrow> feed_folder_row \<Rightarrow> bool" where
  "ex_membership db row \<longleftrightarrow> ff_user_id row \<noteq> None \<and> row \<notin> set (feed_folders db)"

text \<open>
  Plugins that accept every url, with a config creator that fails or succeeds; stores
  over the unit state that know no feed, and add a feed or fail to; an API whose key
  signer accepts every key, and a decoder that reads the body as the url.
\<close>

definition ex_failing_plugin :: "string \<Rightarrow> Plugin" where
  "ex_failing_plugin n =
     \<lparr>Name = n, ConfigValidator = (\<lambda>c. None),
      ConfigCreator = Some (\<lambda>url opts. Inl (ErrorString (n @ '' cannot read the page'')))\<rparr>"

definition ex_working_plugin :: "string \<Rightarrow> Plugin" where
  "ex_working_plugin n =
     \<lparr>Name = n, ConfigValidator = (\<lambda>c. None),
      ConfigCreator =
        Some (\<lambda>url opts. Inr (''Example feed'', \<lparr>Entrypoints = [url], Payload = []\<rparr>))\<rparr>"

definition ex_registry :: "Plugin list" where
  "ex_registry =
     map ex_failing_plugin [''a'', ''b'', ''c'', ''d'', ''e'', ''f'', ''g'', ''h'', ''i'']
       @ [ex_working_plugin ''j'']"

definition ex_feed_store :: "unit FeedStore" where
  "ex_feed_store =
     \<lparr>fs_CheckIfFeedExists = (\<lambda>key folderID plugin url st. ((None, False, None), st)),
      fs_AddFeed = (\<lambda>key folderID title plugin url cfg st. (Inr 1, st))\<rparr>"

definition ex_failing_store :: "unit FeedStore" where
  "ex_failing_store =
     \<lparr>fs_CheckIfFeedExists = (\<lambda>key folderID plugin url st. ((None, False, None), st)),
      fs_AddFeed = (\<lambda>key folderID title plugin url cfg st.
                      (Inl (ErrorString ''could not insert the feed''), st))\<rparr>"

definition ex_api :: "unit FeedStore \<Rightarrow> Plugin list \<Rightarrow> unit FeedAPI" where
  "ex_api store reg = \<lparr>api_s = store, api_ks_Verify = Inr, api_dc_plugins = reg\<rparr>"

definition ex_decoder :: "string \<Rightarrow> error + (string \<times> string)" where
  "ex_decoder body = Inr ([], body)"

definition ex_request :: Request where
  "ex_request = \<lparr>X_Hydrocarbon_Key = ''key'', Body = ex_url\<rparr>"

definition ex_writer :: "uuid \<times> string \<Rightarrow> error option" where
  "ex_writer answer = None"

text \<open>
  A plugin declared as \<open>fictionpress\<close> is, with a validator and no config creator; a
  response writer that fails.
\<close>

definition ex_unset_plugin :: "string \<Rightarrow> Plugin" where
  "ex_unset_plugin n = \<lparr>Name = n, ConfigValidator = (\<lambda>c. None), ConfigCreator = None\<rparr>"

definition ex_broken_writer :: "uuid \<times> string \<Rightarrow> error option" where
  "ex_broken_writer answer = Some (ErrorString ''broken pipe'')"

section \<open>Properties\<close>

subsection \<open>Claiming scrapes\<close>




lemma StartScrapes_negative_limit:
  "limit < 0 \<Longrightarrow> StartScrapes locked now limit db
     = (Inl (ErrorString ''LIMIT must not be negative''), db)"
  by (simp add: StartScrapes_def)




subsection \<open>Writing facts\<close>

lemma valid_hash_found:
  assumes "r \<in> set (posts db)" "po_content_hash r = h" "h \<noteq> []"
  shows "(case filter (\<lambda>r. po_content_hash r = h) (posts db) of [] \<Rightarrow> [] | r # _ \<Rightarrow> po_content_hash r) = h"
proof -
  from assms have "r \<in> set (filter (\<lambda>r. po_content_hash r = h) (posts db))" by simp
  then obtain x xs where e: "filter (\<lambda>r. po_content_hash r = h) (posts db) = x # xs"
    by (cases "filter (\<lambda>r. po_content_hash r = h) (posts db)") auto
  then have "x \<in> set (filter (\<lambda>r. po_content_hash r = h) (posts db))" by simp
  then have "po_content_hash x = h" by simp
  with e show ?thesis by simp
qed

lemma Write_hash_present:
  assumes "r \<in> set (posts db)" and "po_content_hash r = ContentHash env hcp"
    and "ContentHash env hcp \<noteq> []"
  shows "Write env None now scrapeID (PostPtr hcp) db
           = (None, [BeginTx, QueryContentHash, Rollback], db)"
  using valid_hash_found[OF assms] assms(3) by (simp add: Write_def Let_def)

lemma Write_begin_failed:
  "Write env (Some err) now s (PostPtr hcp) db = (None, [BeginTx], db)"
  by (simp add: Write_def)

lemma Write_error_unchanged:
  "fst (Write env b now s f db) \<noteq> None \<Longrightarrow> snd (snd (Write env b now s f db)) = db"
  by (auto simp: Write_def Let_def split: Fact.splits sum.splits if_splits option.splits)

lemma valid_hash_not_found:
  assumes "h \<notin> set (map po_content_hash rows)"
  shows "filter (\<lambda>r. po_content_hash r = h) rows = []"
  using assms by (induction rows) auto

lemma valid_hash_cases:
  "(case filter (\<lambda>r. po_content_hash r = h) rows of [] \<Rightarrow> [] | r # _ \<Rightarrow> po_content_hash r) = []
   \<or> (case filter (\<lambda>r. po_content_hash r = h) rows of [] \<Rightarrow> [] | r # _ \<Rightarrow> po_content_hash r) = h"
proof (cases "filter (\<lambda>r. po_content_hash r = h) rows")
  case Nil then show ?thesis by simp
next
  case (Cons x xs)
  then have "x \<in> set (filter (\<lambda>r. po_content_hash r = h) rows)" by simp
  then have "po_content_hash x = h" by simp
  with Cons show ?thesis by simp
qed

lemma refresh_map_urls:
  "map po_url (map (\<lambda>r. if po_url r = u then refresh_post new r else r) rows) = map po_url rows"
  by (induction rows) (auto simp: refresh_post_def)

lemma upsert_urls:
  "map po_url (upsert_post new rows)
     = (if po_url new \<in> set (map po_url rows) then map po_url rows else map po_url rows @ [po_url new])"
  unfolding upsert_post_def using refresh_map_urls[of "po_url new" new rows] by simp

lemma upsert_has_url:
  "po_url new \<in> set (map po_url (upsert_post new rows))"
  unfolding upsert_urls by simp

lemma refresh_map_has_hash:
  "u \<in> set (map po_url rows) \<Longrightarrow>
   po_content_hash new
     \<in> set (map po_content_hash (map (\<lambda>r. if po_url r = u then refresh_post new r else r) rows))"
  by (induction rows) (auto simp: refresh_post_def)

lemma upsert_has_hash:
  "po_content_hash new \<in> set (map po_content_hash (upsert_post new rows))"
proof (cases "po_url new \<in> set (map po_url rows)")
  case True
  then show ?thesis
    unfolding upsert_post_def using refresh_map_has_hash[of "po_url new" rows new] by simp
next
  case False
  then show ?thesis by (simp add: upsert_post_def)
qed

lemma refresh_twice:
  assumes "po_title new' = po_title new" "po_author new' = po_author new"
    "po_body new' = po_body new" "po_content_hash new' = po_content_hash new"
  shows "map (\<lambda>r. if po_url r = u then refresh_post new' r else r)
           (map (\<lambda>r. if po_url r = u then refresh_post new r else r) rows)
         = map (\<lambda>r. if po_url r = u then refresh_post new r else r) rows"
  using assms by (induction rows) (auto simp: refresh_post_def)

lemma refresh_absent:
  "u \<notin> set (map po_url rows) \<Longrightarrow>
   map (\<lambda>r. if po_url r = u then refresh_post new r else r) rows = rows"
  by (induction rows) auto

lemma upsert_again:
  assumes u: "po_url new' = po_url new" and t: "po_title new' = po_title new"
    and a: "po_author new' = po_author new" and b: "po_body new' = po_body new"
    and h: "po_content_hash new' = po_content_hash new"
  shows "upsert_post new' (upsert_post new rows) = upsert_post new rows"
proof -
  have in': "po_url new' \<in> set (map po_url (upsert_post new rows))"
    using upsert_has_url[of new rows] u by simp
  have "map (\<lambda>r. if po_url r = po_url new then refresh_post new' r else r) (upsert_post new rows)
        = upsert_post new rows"
  proof (cases "po_url new \<in> set (map po_url rows)")
    case True
    then show ?thesis
      unfolding upsert_post_def using refresh_twice[OF t a b h, of "po_url new" rows] by simp
  next
    case False
    have "refresh_post new' new = new" using t a b h by (simp add: refresh_post_def)
    with False show ?thesis
      unfolding upsert_post_def using refresh_absent[of "po_url new" rows new'] by simp
  qed
  with in' show ?thesis using u by (simp add: upsert_post_def[of new'])
qed


lemma Write_post_cases:
  obtains
    (dup) "Write env None now s (PostPtr hcp) db = (None, [BeginTx, QueryContentHash, Rollback], db)"
  | (err) e tr where "Write env None now s (PostPtr hcp) db = (Some e, tr, db)"
  | (ins) body feed where "compressText env (Post_Body hcp) = Inr body"
      and "Write env None now s (PostPtr hcp) db
           = (None, [BeginTx, QueryContentHash, ExecInsertPost, Commit],
              db\<lparr>posts := upsert_post (proposed_post env now feed hcp body db) (posts db)\<rparr>)"
proof -
  let ?v = "case filter (\<lambda>r. po_content_hash r = ContentHash env hcp) (posts db) of
              [] \<Rightarrow> [] | r # _ \<Rightarrow> po_content_hash r"
  show thesis
  proof (cases "?v \<noteq> []")
    case True
    then have "Write env None now s (PostPtr hcp) db = (None, [BeginTx, QueryContentHash, Rollback], db)"
      by (simp add: Write_def Let_def)
    then show thesis by (rule dup)
  next
    case nv: False
    show thesis
    proof (cases "compressText env (Post_Body hcp)")
      case (Inl e)
      with nv have "Write env None now s (PostPtr hcp) db = (Some e, [BeginTx, QueryContentHash, Rollback], db)"
        by (simp add: Write_def Let_def)
      then show thesis by (rule err)
    next
      case (Inr body)
      show thesis
      proof (cases "insert_post env now s hcp body db")
        case (Inl e)
        with nv Inr have "Write env None now s (PostPtr hcp) db
            = (Some e, [BeginTx, QueryContentHash, ExecInsertPost, Rollback], db)"
          by (simp add: Write_def Let_def)
        then show thesis by (rule err)
      next
        case ip: (Inr posts')
        then obtain feed where "posts' = upsert_post (proposed_post env now feed hcp body db) (posts db)"
          by (auto simp: insert_post_def Let_def split: sum.splits if_splits)
        with nv Inr ip have "Write env None now s (PostPtr hcp) db
            = (None, [BeginTx, QueryContentHash, ExecInsertPost, Commit],
               db\<lparr>posts := upsert_post (proposed_post env now feed hcp body db) (posts db)\<rparr>)"
          by (simp add: Write_def Let_def)
        with Inr show thesis by (rule ins)
      qed
    qed
  qed
qed

lemma Write_dup_iff:
  "Write env None now s (PostPtr hcp) db = (None, [BeginTx, QueryContentHash, Rollback], db)
   \<longleftrightarrow> (case filter (\<lambda>r. po_content_hash r = ContentHash env hcp) (posts db) of
          [] \<Rightarrow> [] | r # _ \<Rightarrow> po_content_hash r) \<noteq> []"
  by (auto simp: Write_def Let_def split: sum.splits)

lemma Write_success_has_hash:
  assumes ok: "fst (Write env None now s (PostPtr hcp) db) = None" and h: "ContentHash env hcp \<noteq> []"
  shows "ContentHash env hcp \<in> set (map po_content_hash (posts (snd (snd (Write env None now s (PostPtr hcp) db)))))"
proof (cases rule: Write_post_cases[of env now s hcp db])
  case dup
  then have "filter (\<lambda>r. po_content_hash r = ContentHash env hcp) (posts db) \<noteq> []"
    unfolding Write_dup_iff by (auto split: list.splits)
  then obtain x where "x \<in> set (filter (\<lambda>r. po_content_hash r = ContentHash env hcp) (posts db))"
    by (cases "filter (\<lambda>r. po_content_hash r = ContentHash env hcp) (posts db)") auto
  then have "ContentHash env hcp \<in> set (map po_content_hash (posts db))" by force
  with dup show ?thesis by simp
next
  case (err e tr)
  with ok show ?thesis by simp
next
  case (ins body feed)
  have "po_content_hash (proposed_post env now feed hcp body db) = ContentHash env hcp"
    by (simp add: proposed_post_def)
  with upsert_has_hash[of "proposed_post env now feed hcp body db" "posts db"] ins(2)
  show ?thesis by simp
qed

lemma Write_keeps_urls_unique:
  assumes "distinct (map po_url (posts db))"
  shows "distinct (map po_url (posts (snd (snd (Write env b now s f db)))))"
proof (cases f)
  case (NotPost d)
  with assms show ?thesis by (simp add: Write_def)
next
  case (PostPtr hcp)
  show ?thesis
  proof (cases b)
    case (Some err)
    with assms PostPtr show ?thesis by (simp add: Write_begin_failed)
  next
    case None
    show ?thesis
    proof (cases rule: Write_post_cases[of env now s hcp db])
      case dup with assms PostPtr None show ?thesis by simp
    next
      case (err e tr) with assms PostPtr None show ?thesis by simp
    next
      case (ins body feed)
      have "distinct (map po_url (upsert_post (proposed_post env now feed hcp body db) (posts db)))"
        unfolding upsert_urls using assms by simp
      with ins(2) PostPtr None show ?thesis by simp
    qed
  qed
qed

text \<open>
  C5. For a fact that is not a post, \<open>Write\<close> returns the error that says so, calls
  nothing on the connection (no transaction is begun) and leaves the store as it was.
\<close>

theorem Write_rejects_non_post:
  "Write env beginTx now scrapeID (NotPost d) db
     = (Some (ErrorString ''unable to write non *hydrocarbon.Post struct''), [], db)"
  by (simp add: Write_def)

text \<open>
  C10. The query for the content hash looks at every row of \<open>posts\<close>, whatever its feed:
  when any row holds the hash of the post (a digest, so not the empty string), \<open>Write\<close>
  returns success and leaves the store as it was, for every scrape id: it rolls its
  transaction back after the query, or, when the transaction does not begin, returns
  at once.
\<close>

theorem Write_dedup_global:
  assumes "r \<in> set (posts db)" and "po_content_hash r = ContentHash env hcp"
    and "ContentHash env hcp \<noteq> []"
  shows "Write env beginTx now scrapeID (PostPtr hcp) db
           = (None,
              if beginTx = None then [BeginTx, QueryContentHash, Rollback] else [BeginTx],
              db)"
proof (cases beginTx)
  case None
  with Write_hash_present[OF assms] show ?thesis by simp
next
  case (Some err)
  then show ?thesis by (simp add: Write_begin_failed)
qed

text \<open>
  The theorem at the example library: the post of feed 10 is written again by scrape 2,
  a scrape of feed 11.
\<close>

theorem Write_dedup_global_witness:
  "map po_feed_id (posts ex_library) = [Some 10]
   \<and> map sc_feed_id (filter (\<lambda>r. sc_id r = 2) (scrapes ex_library)) = [11]
   \<and> ContentHash ex_env (ex_post ''A'' ''ann'' ''x'' ''u1'') \<noteq> []
   \<and> Write ex_env None 50 2 (PostPtr (ex_post ''A'' ''ann'' ''x'' ''u1'')) ex_library
       = (None, [BeginTx, QueryContentHash, Rollback], ex_library)"
proof -
  let ?r = "\<lparr>po_id = 1, po_feed_id = Some 10,
             po_content_hash = ex_hash (ex_post ''A'' ''ann'' ''x'' ''u1''),
             po_title = ''A'', po_author = ''ann'', po_body = ''z:x'', po_url = ''u1'',
             po_posted_at = 40, po_created_at = 41\<rparr>"
  have m: "?r \<in> set (posts ex_library)" by (simp add: ex_library_def ex_empty_def)
  have h: "po_content_hash ?r = ContentHash ex_env (ex_post ''A'' ''ann'' ''x'' ''u1'')"
    by (simp add: ex_env_def)
  have n: "ContentHash ex_env (ex_post ''A'' ''ann'' ''x'' ''u1'') \<noteq> []"
    by (simp add: ex_env_def ex_hash_def)
  have f: "map po_feed_id (posts ex_library) = [Some 10]"
    by (simp add: ex_library_def ex_empty_def)
  have g: "map sc_feed_id (filter (\<lambda>r. sc_id r = 2) (scrapes ex_library)) = [11]"
    by (simp add: ex_library_def ex_empty_def ex_scrape_def)
  from Write_dedup_global[OF m h n, of None 50 2] f g n show ?thesis by simp
qed

text \<open>
  When the transaction of a \<open>Write\<close> begins: a \<open>Write\<close> that returns an error leaves the
  store as it was, and after a \<open>Write\<close> that returned success a second \<open>Write\<close> of the
  same post for the same scrape, at any later time, leaves the store exactly as the
  first one left it; the content hash being a digest (not the empty string), the second
  call finds the hash, returns success and rolls back without an insert.
\<close>

lemma Write_again:
  assumes first: "Write env None t1 s (PostPtr hcp) db = (r1, calls1, db1)"
  shows "(r1 \<noteq> None \<longrightarrow> db1 = db)
       \<and> (r1 = None \<longrightarrow>
            snd (snd (Write env None t2 s (PostPtr hcp) db1)) = db1
          \<and> (ContentHash env hcp \<noteq> [] \<longrightarrow>
               Write env None t2 s (PostPtr hcp) db1
                 = (None, [BeginTx, QueryContentHash, Rollback], db1)))"
proof (intro conjI impI)
  assume "r1 \<noteq> None"
  then have "fst (Write env None t1 s (PostPtr hcp) db) \<noteq> None" using first by simp
  then have "snd (snd (Write env None t1 s (PostPtr hcp) db)) = db" by (rule Write_error_unchanged)
  then show "db1 = db" using first by simp
next
  assume ok: "r1 = None"
  show "snd (snd (Write env None t2 s (PostPtr hcp) db1)) = db1"
  proof (cases rule: Write_post_cases[of env t2 s hcp db1])
    case dup then show ?thesis by simp
  next
    case (err e tr) then show ?thesis by simp
  next
    case second: (ins body2 feed2)
    show ?thesis
    proof (cases rule: Write_post_cases[of env t1 s hcp db])
      case dup
      then have same: "db1 = db" using first by simp
      from dup have "Write env None t2 s (PostPtr hcp) db
          = (None, [BeginTx, QueryContentHash, Rollback], db)"
        unfolding Write_dup_iff .
      then show ?thesis using same by simp
    next
      case (err e tr) with ok first show ?thesis by simp
    next
      case first_ins: (ins body1 feed1)
      then have d: "db1 = db\<lparr>posts := upsert_post (proposed_post env t1 feed1 hcp body1 db)
                                         (posts db)\<rparr>"
        using first by simp
      have b: "body2 = body1" using first_ins(1) second(1) by simp
      have "upsert_post (proposed_post env t2 feed2 hcp body2 db1) (posts db1) = posts db1"
        unfolding d using b by (simp add: upsert_again proposed_post_def)
      then show ?thesis using second(2) by simp
    qed
  qed
next
  assume ok: "r1 = None" and h: "ContentHash env hcp \<noteq> []"
  from ok first have "fst (Write env None t1 s (PostPtr hcp) db) = None" by simp
  from Write_success_has_hash[OF this h]
  obtain x where "x \<in> set (posts db1)" "po_content_hash x = ContentHash env hcp"
    using first by auto
  then show "Write env None t2 s (PostPtr hcp) db1
      = (None, [BeginTx, QueryContentHash, Rollback], db1)"
    using h by (intro Write_hash_present)
qed

text \<open>
  The lemma at the example library: scrape 2 writes a new post at time 50, which adds a
  second row, and writes it again at time 60.
\<close>

lemma Write_again_example:
  "Write ex_env None 50 2 (PostPtr (ex_post ''B'' ''bob'' ''y'' ''u2'')) ex_library
     = (None, [BeginTx, QueryContentHash, ExecInsertPost, Commit], ex_library_B)
   \<and> ContentHash ex_env (ex_post ''B'' ''bob'' ''y'' ''u2'') \<noteq> []
   \<and> Write ex_env None 60 2 (PostPtr (ex_post ''B'' ''bob'' ''y'' ''u2'')) ex_library_B
       = (None, [BeginTx, QueryContentHash, Rollback], ex_library_B)
   \<and> length (posts ex_library_B) = 2"
proof -
  have first: "Write ex_env None 50 2 (PostPtr (ex_post ''B'' ''bob'' ''y'' ''u2'')) ex_library
     = (None, [BeginTx, QueryContentHash, ExecInsertPost, Commit], ex_library_B)"
    by (simp add: Write_def ex_env_def ex_library_def ex_library_B_def ex_empty_def ex_post_def
        ex_hash_def Let_def insert_post_def scalar_subquery_def ex_scrape_def
        proposed_post_def upsert_post_def refresh_post_def fresh_uuid_def)
  have n: "ContentHash ex_env (ex_post ''B'' ''bob'' ''y'' ''u2'') \<noteq> []"
    by (simp add: ex_env_def ex_hash_def)
  have l: "length (posts ex_library_B) = 2"
    by (simp add: ex_library_B_def ex_library_def ex_empty_def)
  from Write_again[OF first, of 60] n l first show ?thesis by simp
qed

text \<open>
  C3. Two calls of \<open>Write\<close> do not always leave the store that one call leaves. \<open>Write\<close>
  answers a failed \<open>BeginTx\<close> with a nil error: on the example library the first \<open>Write\<close>
  of a new post, whose transaction does not begin, returns success and has written
  nothing; the second \<open>Write\<close> of the same post finds no hash and inserts the row. After
  one call the table has one post, after two calls two.
\<close>

theorem Write_twice_after_failed_begin:
  "Write ex_env (Some (ErrorString ''context canceled'')) 40 2
       (PostPtr (ex_post ''B'' ''bob'' ''y'' ''u2'')) ex_library
     = (None, [BeginTx], ex_library)
   \<and> Write ex_env None 50 2 (PostPtr (ex_post ''B'' ''bob'' ''y'' ''u2'')) ex_library
     = (None, [BeginTx, QueryContentHash, ExecInsertPost, Commit], ex_library_B)
   \<and> length (posts ex_library) = 1 \<and> length (posts ex_library_B) = 2"
  by (simp add: Write_def ex_env_def ex_library_def ex_library_B_def ex_empty_def ex_post_def
      ex_hash_def Let_def insert_post_def scalar_subquery_def ex_scrape_def
      proposed_post_def upsert_post_def refresh_post_def fresh_uuid_def)

text \<open>
  C4. \<open>Write\<close> keeps the urls of \<open>posts\<close> unique. When its transaction begins and it
  succeeds for a post whose content hash no row holds and whose url a row holds, the
  store afterwards is the store before with that row overwritten in title, author, body
  (the compressed text) and content hash: no row is added, and ids and urls stay as they
  were.
\<close>

theorem Write_refreshes_known_url:
  "(distinct (map po_url (posts db))
      \<longrightarrow> distinct (map po_url (posts (snd (snd (Write env beginTx now s f db))))))
   \<and> (ContentHash env hcp \<notin> set (map po_content_hash (posts db))
      \<and> Post_OriginalURL hcp \<in> set (map po_url (posts db))
      \<and> fst (Write env None now s (PostPtr hcp) db) = None
      \<longrightarrow> (\<exists>body. compressText env (Post_Body hcp) = Inr body
            \<and> snd (snd (Write env None now s (PostPtr hcp) db))
                = db\<lparr>posts := map (\<lambda>r. if po_url r = Post_OriginalURL hcp
                                       then r\<lparr>po_title := Post_Title hcp,
                                              po_author := Post_Author hcp,
                                              po_body := body,
                                              po_content_hash := ContentHash env hcp\<rparr>
                                       else r) (posts db)\<rparr>
            \<and> length (posts (snd (snd (Write env None now s (PostPtr hcp) db)))) = length (posts db)
            \<and> map po_id (posts (snd (snd (Write env None now s (PostPtr hcp) db)))) = map po_id (posts db)))"
proof (intro conjI impI)
  assume "distinct (map po_url (posts db))"
  then show "distinct (map po_url (posts (snd (snd (Write env beginTx now s f db)))))"
    by (rule Write_keeps_urls_unique)
next
  assume a: "ContentHash env hcp \<notin> set (map po_content_hash (posts db))
      \<and> Post_OriginalURL hcp \<in> set (map po_url (posts db))
      \<and> fst (Write env None now s (PostPtr hcp) db) = None"
  let ?upd = "\<lambda>body r. if po_url r = Post_OriginalURL hcp
                 then r\<lparr>po_title := Post_Title hcp, po_author := Post_Author hcp,
                        po_body := body, po_content_hash := ContentHash env hcp\<rparr>
                 else r"
  from a have nf: "filter (\<lambda>r. po_content_hash r = ContentHash env hcp) (posts db) = []"
    by (intro valid_hash_not_found) simp
  show "\<exists>body. compressText env (Post_Body hcp) = Inr body
            \<and> snd (snd (Write env None now s (PostPtr hcp) db)) = db\<lparr>posts := map (?upd body) (posts db)\<rparr>
            \<and> length (posts (snd (snd (Write env None now s (PostPtr hcp) db)))) = length (posts db)
            \<and> map po_id (posts (snd (snd (Write env None now s (PostPtr hcp) db)))) = map po_id (posts db)"
  proof (cases rule: Write_post_cases[of env now s hcp db])
    case dup
    with nf show ?thesis unfolding Write_dup_iff by simp
  next
    case (err e tr)
    with a show ?thesis by simp
  next
    case (ins body feed)
    let ?new = "proposed_post env now feed hcp body db"
    have u: "po_url ?new \<in> set (map po_url (posts db))"
      using a by (simp add: proposed_post_def)
    have "upsert_post ?new (posts db) = map (?upd body) (posts db)"
      using u by (simp add: upsert_post_def refresh_post_def proposed_post_def)
    with ins have st: "snd (snd (Write env None now s (PostPtr hcp) db)) = db\<lparr>posts := map (?upd body) (posts db)\<rparr>"
      by simp
    have ids: "map po_id (map (?upd body) (posts db)) = map po_id (posts db)"
      by (induction "posts db") auto
    show ?thesis using ins(1) st ids by (intro exI[of _ body]) simp
  qed
qed


text \<open>
  The theorem at the example library: scrape 1 writes a changed post under the url that
  the stored post has.
\<close>

theorem Write_refreshes_known_url_witness:
  "distinct (map po_url (posts ex_library))
   \<and> ContentHash ex_env (ex_post ''A2'' ''bob'' ''y'' ''u1'')
       \<notin> set (map po_content_hash (posts ex_library))
   \<and> Post_OriginalURL (ex_post ''A2'' ''bob'' ''y'' ''u1'') \<in> set (map po_url (posts ex_library))
   \<and> Write ex_env None 50 1 (PostPtr (ex_post ''A2'' ''bob'' ''y'' ''u1'')) ex_library
       = (None, [BeginTx, QueryContentHash, ExecInsertPost, Commit],
          ex_library\<lparr>posts :=
            [\<lparr>po_id = 1, po_feed_id = Some 10, po_content_hash = ''h:A2|bob|y|u1'',
              po_title = ''A2'', po_author = ''bob'', po_body = ''z:y'', po_url = ''u1'',
              po_posted_at = 40, po_created_at = 41\<rparr>]\<rparr>)
   \<and> length (posts (snd (snd (Write ex_env None 50 1 (PostPtr (ex_post ''A2'' ''bob'' ''y'' ''u1''))
                 ex_library)))) = length (posts ex_library)"
proof -
  have d: "distinct (map po_url (posts ex_library))"
    by (simp add: ex_library_def ex_empty_def)
  have n: "ContentHash ex_env (ex_post ''A2'' ''bob'' ''y'' ''u1'')
       \<notin> set (map po_content_hash (posts ex_library))"
    by (simp add: ex_env_def ex_hash_def ex_post_def ex_library_def ex_empty_def)
  have u: "Post_OriginalURL (ex_post ''A2'' ''bob'' ''y'' ''u1'')
       \<in> set (map po_url (posts ex_library))"
    by (simp add: ex_post_def ex_library_def ex_empty_def)
  have run: "Write ex_env None 50 1 (PostPtr (ex_post ''A2'' ''bob'' ''y'' ''u1'')) ex_library
       = (None, [BeginTx, QueryContentHash, ExecInsertPost, Commit],
          ex_library\<lparr>posts :=
            [\<lparr>po_id = 1, po_feed_id = Some 10, po_content_hash = ''h:A2|bob|y|u1'',
              po_title = ''A2'', po_author = ''bob'', po_body = ''z:y'', po_url = ''u1'',
              po_posted_at = 40, po_created_at = 41\<rparr>]\<rparr>)"
    by (simp add: Write_def ex_env_def ex_library_def ex_empty_def ex_post_def ex_hash_def
        Let_def insert_post_def scalar_subquery_def ex_scrape_def proposed_post_def
        upsert_post_def refresh_post_def fresh_uuid_def)
  then have ok: "fst (Write ex_env None 50 1 (PostPtr (ex_post ''A2'' ''bob'' ''y'' ''u1'')) ex_library)
       = None"
    by simp
  from Write_refreshes_known_url[where db = ex_library and env = ex_env and now = 50
      and s = 1 and hcp = "ex_post ''A2'' ''bob'' ''y'' ''u1''"] n u ok
  have "length (posts (snd (snd (Write ex_env None 50 1 (PostPtr (ex_post ''A2'' ''bob'' ''y'' ''u1''))
                 ex_library)))) = length (posts ex_library)"
    by blast
  with d n u run show ?thesis by simp
qed


subsection \<open>Ending scrapes\<close>

lemma mark_absent:
  "sid \<notin> set (map sc_id rows) \<Longrightarrow>
   map (\<lambda>r. if sc_id r = sid then g r else r) rows = rows"
  by (induction rows) simp_all

lemma filter_absent:
  "sid \<notin> set (map sc_id rows) \<Longrightarrow> filter (\<lambda>r. sc_id r = sid) rows = []"
  by (induction rows) simp_all

lemma EndScrape_unknown:
  assumes "sid \<notin> set (map sc_id (scrapes db))"
  shows "EndScrape now sid datums retries tasks db = (Some ErrNoRows, db)"
  using mark_absent[OF assms] filter_absent[OF assms]
  by (simp add: EndScrape_def Let_def)

lemma filter_marked:
  "filter (\<lambda>r. sc_id r = sid)
     (map (\<lambda>r. if sc_id r = sid then mark_success now d t k r else r) rows)
   = map (mark_success now d t k) (filter (\<lambda>r. sc_id r = sid) rows)"
  by (induction rows) (simp_all add: mark_success_def)

lemma EndScrape_known:
  assumes "sid \<in> set (map sc_id (scrapes db))"
  shows "EndScrape now sid datums retries tasks db
     = (None, db\<lparr>scrapes := map (\<lambda>r. if sc_id r = sid
                                    then mark_success now datums retries tasks r else r)
                    (scrapes db)\<rparr>)"
proof -
  from assms have "filter (\<lambda>r. sc_id r = sid) (scrapes db) \<noteq> []"
    by (auto simp: filter_empty_conv)
  then obtain x xs where e: "filter (\<lambda>r. sc_id r = sid) (scrapes db) = x # xs"
    by (cases "filter (\<lambda>r. sc_id r = sid) (scrapes db)") simp_all
  show ?thesis
    by (simp add: EndScrape_def Let_def filter_marked e) (simp add: mark_success_def)
qed

lemma ErrorScrape_returns: "ErrorScrape sid err db = (None, db)"
  by (simp add: ErrorScrape_def)

text \<open>
  C2. \<open>EndScrape\<close> leaves a scrape that exists in state \<open>SUCCESS\<close> (lemma
  \<open>EndScrape_known\<close>). \<open>ErrorScrape\<close> does not do its part: on the example queue, after
  \<open>ErrorScrape\<close> of the running scrape 4 the store is the one before, the scrape is still
  \<open>RUNNING\<close> and its error list is still empty.
\<close>

theorem ErrorScrape_records_nothing:
  "ErrorScrape 4 (ErrorString ''fetch failed'') ex_queue = (None, ex_queue)
   \<and> map (\<lambda>r. (sc_state r, sc_errors r))
       (filter (\<lambda>r. sc_id r = 4) (scrapes (snd (ErrorScrape 4 (ErrorString ''fetch failed'') ex_queue))))
     = [(RUNNING, [])]"
  by (simp add: ErrorScrape_def ex_queue_def ex_empty_def ex_scrape_def)



subsection \<open>Schedules\<close>

lemma fold_max_start: "(m::nat) \<le> fold max ids m"
proof (induction ids arbitrary: m)
  case Nil then show ?case by simp
next
  case (Cons a ids)
  have "m \<le> max a m" by simp
  also have "\<dots> \<le> fold max ids (max a m)" by (rule Cons.IH)
  finally show ?case by simp
qed

lemma fold_max_ge: "(x::nat) \<in> set ids \<Longrightarrow> x \<le> fold max ids m"
proof (induction ids arbitrary: m)
  case Nil then show ?case by simp
next
  case (Cons a ids)
  show ?case
  proof (cases "x = a")
    case True
    have "x \<le> max a m" using True by simp
    also have "\<dots> \<le> fold max ids (max a m)" by (rule fold_max_start)
    finally show ?thesis by simp
  next
    case False
    with Cons.prems have "x \<in> set ids" by simp
    then have "x \<le> fold max ids (max a m)" by (rule Cons.IH)
    then show ?thesis by simp
  qed
qed

lemma fresh_uuid_new: "fresh_uuid ids \<notin> set ids"
proof
  assume "fresh_uuid ids \<in> set ids"
  then have "fresh_uuid ids \<le> fold max ids 0" by (rule fold_max_ge)
  then show False by (simp add: fresh_uuid_def)
qed


lemma insert_schedule_row_cases:
  obtains
    (refused) e where "insert_schedule_row tbl now r s db = Inl e"
  | (skipped) "filter (same_schedule r s) (scrapes db) \<noteq> []"
      and "scrapes_check tbl (scheduled_row now (fresh_uuid (map sc_id (scrapes db))) r s)"
      and "insert_schedule_row tbl now r s db = Inr db"
  | (inserted) "filter (same_schedule r s) (scrapes db) = []"
      and "insert_schedule_row tbl now r s db
           = Inr (db\<lparr>scrapes := scrapes db
                     @ [scheduled_row now (fresh_uuid (map sc_id (scrapes db))) r s]\<rparr>)"
proof -
  let ?row = "scheduled_row now (fresh_uuid (map sc_id (scrapes db))) r s"
  show thesis
  proof (cases "scrapes_check tbl ?row")
    case False
    then have "insert_schedule_row tbl now r s db
        = Inl (ErrorString ''new row for relation scrapes violates a constraint'')"
      by (simp add: insert_schedule_row_def Let_def)
    then show thesis by (rule refused)
  next
    case chk: True
    show thesis
    proof (cases "filter (same_schedule r s) (scrapes db) = []")
      case False
      with chk have "insert_schedule_row tbl now r s db = Inr db"
        by (simp add: insert_schedule_row_def Let_def)
      with False chk show thesis by (intro skipped)
    next
      case new: True
      show thesis
      proof (cases "scrapes_accepts tbl db ?row")
        case False
        with chk new have "insert_schedule_row tbl now r s db
            = Inl (ErrorString ''insert on table scrapes violates a constraint'')"
          by (simp add: insert_schedule_row_def Let_def)
        then show thesis by (rule refused)
      next
        case True
        with chk new have "insert_schedule_row tbl now r s db
           = Inr (db\<lparr>scrapes := scrapes db @ [?row]\<rparr>)"
          by (simp add: insert_schedule_row_def Let_def)
        with new show thesis by (intro inserted)
      qed
    qed
  qed
qed

lemma insert_schedule_row_holds_key:
  assumes "insert_schedule_row tbl now r s db = Inr db1"
  shows "filter (same_schedule r s) (scrapes db1) \<noteq> []"
proof (cases rule: insert_schedule_row_cases[of tbl now r s db])
  case (refused e)
  with assms show ?thesis by simp
next
  case skipped
  with assms show ?thesis by simp
next
  case inserted
  have "same_schedule r s (scheduled_row now (fresh_uuid (map sc_id (scrapes db))) r s)"
    by (simp add: same_schedule_def scheduled_row_def)
  with inserted(2) assms show ?thesis by auto
qed

lemma insert_schedule_row_duplicate:
  assumes "filter (same_schedule r s) (scrapes db) \<noteq> []"
  shows "insert_schedule_row tbl now r s db
     = (if scrapes_check tbl (scheduled_row now (fresh_uuid (map sc_id (scrapes db))) r s)
        then Inr db
        else Inl (ErrorString ''new row for relation scrapes violates a constraint''))"
  using assms by (simp add: insert_schedule_row_def Let_def)

lemma InsertSchedule_one:
  "InsertSchedule tbl now r [s] db
     = (case insert_schedule_row tbl now r s db of
          Inl err \<Rightarrow> (Some err, db) | Inr db' \<Rightarrow> (None, db'))"
  by (simp split: sum.splits)

text \<open>
  C6, as it stands, fails: the key of the conflict clause has no feed in it. On the
  example store the schedule at time 7 for feed 13 has the plugin, start time and
  config of the waiting scrape of feed 14, so both calls are skipped without an error
  and no row is inserted.
\<close>

theorem InsertSchedule_taken_key_counterexample:
  "filter (same_schedule ex_schedule_request ex_taken_schedule) (scrapes ex_planned)
     = [ex_scrape 5 14 WAITING 7 []]
   \<and> InsertSchedule ex_scrapes_table 100 ex_schedule_request [ex_taken_schedule] ex_planned
       = (None, ex_planned)
   \<and> InsertSchedule ex_scrapes_table 110 ex_schedule_request [ex_taken_schedule] ex_planned
       = (None, ex_planned)"
  by (simp add: insert_schedule_row_def same_schedule_def scheduled_row_def fresh_uuid_def
      ex_schedule_request_def ex_taken_schedule_def ex_planned_def ex_queue_def
      ex_empty_def ex_scrape_def ex_scrapes_table_def ex_config_def Let_def)

text \<open>
  C6, amended. \<open>InsertSchedule\<close> of one schedule, twice. A call that returns an error has
  inserted nothing. When the first call returns no error, the second call changes
  nothing, and it returns no error when its row passes the row constraints of the table:
  the duplicate is skipped, neither inserted nor treated as an error. The two calls
  together have then added exactly one row, a \<open>WAITING\<close> scrape of the request's feed with
  an id of its own, when no scrape with the plugin, start time and config of the
  schedule stood in the store before; when one did (of this feed or of another), no row
  is added.
\<close>

theorem InsertSchedule_twice:
  assumes one: "InsertSchedule tbl t1 r [s] db = (e1, db1)"
    and two: "InsertSchedule tbl t2 r [s] db1 = (e2, db2)"
  shows "(e1 \<noteq> None \<longrightarrow> db1 = db)
     \<and> (e1 = None \<longrightarrow> db2 = db1
          \<and> (scrapes_check tbl (scheduled_row t2 (fresh_uuid (map sc_id (scrapes db1))) r s)
               \<longrightarrow> e2 = None))
     \<and> (e1 = None \<and> filter (same_schedule r s) (scrapes db) = [] \<longrightarrow>
          (\<exists>row. db2 = db\<lparr>scrapes := scrapes db @ [row]\<rparr>
             \<and> sc_state row = WAITING \<and> sc_feed_id row = SR_FeedID r
             \<and> sc_plugin row = SR_Plugin r \<and> sc_config row = SS_Config s
             \<and> sc_scheduled_start_at row = SS_ScheduledStartAt s
             \<and> sc_errors row = [] \<and> sc_id row \<notin> set (map sc_id (scrapes db))))
     \<and> (filter (same_schedule r s) (scrapes db) \<noteq> [] \<longrightarrow> db1 = db \<and> db2 = db)"
proof -
  let ?row2 = "scheduled_row t2 (fresh_uuid (map sc_id (scrapes db1))) r s"
  from one have one': "(case insert_schedule_row tbl t1 r s db of
          Inl err \<Rightarrow> (Some err, db) | Inr db' \<Rightarrow> (None, db')) = (e1, db1)"
    by (simp only: InsertSchedule_one)
  from two have two': "(case insert_schedule_row tbl t2 r s db1 of
          Inl err \<Rightarrow> (Some err, db1) | Inr db' \<Rightarrow> (None, db')) = (e2, db2)"
    by (simp only: InsertSchedule_one)
  have failed: "db1 = db" if "e1 \<noteq> None"
    using one' that by (cases "insert_schedule_row tbl t1 r s db") auto
  have ok1: "insert_schedule_row tbl t1 r s db = Inr db1" if "e1 = None"
    using one' that by (cases "insert_schedule_row tbl t1 r s db") auto
  have second: "db2 = db1 \<and> (scrapes_check tbl ?row2 \<longrightarrow> e2 = None)" if e: "e1 = None"
  proof -
    from insert_schedule_row_holds_key[OF ok1[OF e]]
    have k: "filter (same_schedule r s) (scrapes db1) \<noteq> []" .
    from two' show ?thesis
      unfolding insert_schedule_row_duplicate[OF k] by (auto split: if_splits)
  qed
  have fresh: "\<exists>row. db2 = db\<lparr>scrapes := scrapes db @ [row]\<rparr>
             \<and> sc_state row = WAITING \<and> sc_feed_id row = SR_FeedID r
             \<and> sc_plugin row = SR_Plugin r \<and> sc_config row = SS_Config s
             \<and> sc_scheduled_start_at row = SS_ScheduledStartAt s
             \<and> sc_errors row = [] \<and> sc_id row \<notin> set (map sc_id (scrapes db))"
    if e: "e1 = None" and n: "filter (same_schedule r s) (scrapes db) = []"
  proof -
    let ?row = "scheduled_row t1 (fresh_uuid (map sc_id (scrapes db))) r s"
    have "db1 = db\<lparr>scrapes := scrapes db @ [?row]\<rparr>"
    proof (cases rule: insert_schedule_row_cases[of tbl t1 r s db])
      case (refused e') with ok1[OF e] show ?thesis by simp
    next
      case skipped with n show ?thesis by simp
    next
      case inserted with ok1[OF e] show ?thesis by simp
    qed
    with second[OF e] have a: "db2 = db\<lparr>scrapes := scrapes db @ [?row]\<rparr>" by simp
    have b: "sc_id ?row \<notin> set (map sc_id (scrapes db))"
      using fresh_uuid_new[of "map sc_id (scrapes db)"] by (simp add: scheduled_row_def)
    have c: "sc_state ?row = WAITING \<and> sc_feed_id ?row = SR_FeedID r
             \<and> sc_plugin ?row = SR_Plugin r \<and> sc_config ?row = SS_Config s
             \<and> sc_scheduled_start_at ?row = SS_ScheduledStartAt s \<and> sc_errors ?row = []"
      by (simp add: scheduled_row_def)
    from a b c show ?thesis by blast
  qed
  have old: "db1 = db \<and> db2 = db" if k: "filter (same_schedule r s) (scrapes db) \<noteq> []"
  proof -
    from one' have 1: "db1 = db"
      unfolding insert_schedule_row_duplicate[OF k] by (auto split: if_splits)
    from two' have "db2 = db"
      unfolding 1 insert_schedule_row_duplicate[OF k] by (auto split: if_splits)
    with 1 show ?thesis by simp
  qed
  from failed second fresh old show ?thesis by blast
qed

text \<open>
  The theorem at the example store: feed 13 gets its next scrape, once; and a schedule
  for a feed the store does not have is refused, and nothing is inserted.
\<close>

theorem InsertSchedule_twice_witness:
  "InsertSchedule ex_scrapes_table 100 ex_schedule_request [ex_schedule] ex_planned
     = (None, ex_planned_scheduled)
   \<and> InsertSchedule ex_scrapes_table 110 ex_schedule_request [ex_schedule] ex_planned_scheduled
       = (None, ex_planned_scheduled)
   \<and> filter (same_schedule ex_schedule_request ex_schedule) (scrapes ex_planned) = []
   \<and> length (scrapes ex_planned_scheduled) = Suc (length (scrapes ex_planned))
   \<and> map sc_state (drop 5 (scrapes ex_planned_scheduled)) = [WAITING]
   \<and> InsertSchedule ex_scrapes_table 100 (ex_schedule_request\<lparr>SR_FeedID := 99\<rparr>)
        [ex_schedule] ex_planned
       = (Some (ErrorString ''insert on table scrapes violates a constraint''), ex_planned)"
proof -
  have one: "InsertSchedule ex_scrapes_table 100 ex_schedule_request [ex_schedule] ex_planned
      = (None, ex_planned_scheduled)"
    by (simp add: insert_schedule_row_def same_schedule_def scheduled_row_def fresh_uuid_def
        ex_schedule_request_def ex_schedule_def ex_planned_def ex_planned_scheduled_def
        ex_queue_def ex_empty_def ex_scrape_def ex_scrapes_table_def ex_feed_at_def Let_def)
  have two: "InsertSchedule ex_scrapes_table 110 ex_schedule_request [ex_schedule]
        ex_planned_scheduled = (None, ex_planned_scheduled)"
    by (simp add: insert_schedule_row_def same_schedule_def scheduled_row_def fresh_uuid_def
        ex_schedule_request_def ex_schedule_def ex_planned_def ex_planned_scheduled_def
        ex_queue_def ex_empty_def ex_scrape_def ex_scrapes_table_def ex_feed_at_def Let_def)
  have new: "filter (same_schedule ex_schedule_request ex_schedule) (scrapes ex_planned) = []"
    by (simp add: same_schedule_def ex_schedule_request_def ex_schedule_def ex_planned_def
        ex_queue_def ex_empty_def ex_scrape_def)
  have rest: "length (scrapes ex_planned_scheduled) = Suc (length (scrapes ex_planned))
      \<and> map sc_state (drop 5 (scrapes ex_planned_scheduled)) = [WAITING]"
    by (simp add: ex_planned_scheduled_def ex_planned_def ex_queue_def ex_empty_def
        ex_scrape_def)
  have no_feed: "InsertSchedule ex_scrapes_table 100 (ex_schedule_request\<lparr>SR_FeedID := 99\<rparr>)
        [ex_schedule] ex_planned
       = (Some (ErrorString ''insert on table scrapes violates a constraint''), ex_planned)"
    by (simp add: insert_schedule_row_def same_schedule_def scheduled_row_def fresh_uuid_def
        ex_schedule_request_def ex_schedule_def ex_planned_def ex_queue_def ex_empty_def
        ex_scrape_def ex_scrapes_table_def ex_feed_at_def Let_def)
  from InsertSchedule_twice[OF one two] one two new rest no_feed show ?thesis by simp
qed

lemma feed_group_feed: "q \<in> set (feed_group db f) \<Longrightarrow>
    SR_FeedID q = fd_id f \<and> \<not> has_waiting (fd_id f) db"
  by (auto simp: feed_group_def Let_def split: if_splits)

lemma FindMissingSchedules_no_waiting:
  assumes "FindMissingSchedules limit db = Inr qs" and "q \<in> set qs"
  shows "\<not> has_waiting (SR_FeedID q) db"
proof -
  from assms(1) have "qs = take (nat limit) (concat (map (feed_group db) (feeds db)))"
    by (simp add: FindMissingSchedules_def split: if_splits)
  with assms(2) have "q \<in> set (concat (map (feed_group db) (feeds db)))"
    by (auto dest: in_set_takeD)
  then obtain f where "q \<in> set (feed_group db f)" by auto
  from feed_group_feed[OF this] show ?thesis by simp
qed

lemma map_filter_none: "List.map_filter snd (List.product xs [None]) = []"
  by (induction xs) (simp_all add: List.map_filter_simps)

lemma feed_group_without_posts:
  assumes "lateral_posts (fd_id f) db = []" and "q \<in> set (feed_group db f)"
  shows "SR_LatestDatums q = []"
  using assms
  by (auto simp: feed_group_def joined_rows_def left_join_def order_desc_def map_filter_none
      Let_def split: if_splits)

lemma length_order_desc: "length (order_desc k xs) = length xs"
  by (simp add: order_desc_def)

lemma set_order_desc: "set (order_desc k xs) = set xs"
  by (simp add: order_desc_def)

lemma map_filter_some:
  "List.map_filter snd (List.product xs (map Some ys)) = concat (map (\<lambda>x. ys) xs)"
proof (induction xs)
  case Nil then show ?case by (simp add: List.map_filter_def)
next
  case (Cons x xs)
  have "List.map_filter snd (map (Pair x) (map Some ys)) = ys"
    by (induction ys) (simp_all add: List.map_filter_def)
  with Cons show ?case by (simp add: List.map_filter_def)
qed

lemma length_concat_const: "length (concat (map (\<lambda>x. ys) xs)) = length xs * length ys"
  by (induction xs) simp_all

lemma feed_group_lengths:
  assumes "q \<in> set (feed_group db f)"
  shows "length (SR_LatestScrapes q)
           = length (lateral_scrapes (fd_id f) db)
               * max 1 (length (lateral_posts (fd_id f) db))
       \<and> length (SR_LatestDatums q)
           = length (lateral_scrapes (fd_id f) db) * length (lateral_posts (fd_id f) db)"
proof -
  let ?sc = "lateral_scrapes (fd_id f) db" and ?ps = "lateral_posts (fd_id f) db"
  from assms have q: "q = \<lparr>SR_FeedID = fd_id f, SR_Plugin = fd_plugin f,
        SR_LatestScrapes = map fst (order_desc (\<lambda>x. sc_scheduled_start_at (fst x))
                                      (joined_rows (fd_id f) db)),
        SR_LatestDatums = order_desc po_created_at
                            (List.map_filter snd (joined_rows (fd_id f) db))\<rparr>"
    by (auto simp: feed_group_def Let_def split: if_splits)
  show ?thesis
  proof (cases "?ps = []")
    case True
    then show ?thesis
      by (simp add: q length_order_desc joined_rows_def left_join_def map_filter_none)
  next
    case False
    then have "max 1 (length ?ps) = length ?ps" by (cases ?ps) simp_all
    with False show ?thesis
      by (simp add: q length_order_desc joined_rows_def left_join_def map_filter_some
          length_concat_const)
  qed
qed

lemma feed_group_rows:
  assumes "q \<in> set (feed_group db f)"
  shows "set (SR_LatestScrapes q) = set (lateral_scrapes (fd_id f) db)
       \<and> set (SR_LatestDatums q) = set (lateral_posts (fd_id f) db)"
proof -
  let ?sc = "lateral_scrapes (fd_id f) db" and ?ps = "lateral_posts (fd_id f) db"
  from assms have q: "q = \<lparr>SR_FeedID = fd_id f, SR_Plugin = fd_plugin f,
        SR_LatestScrapes = map fst (order_desc (\<lambda>x. sc_scheduled_start_at (fst x))
                                      (joined_rows (fd_id f) db)),
        SR_LatestDatums = order_desc po_created_at
                            (List.map_filter snd (joined_rows (fd_id f) db))\<rparr>"
    and ne: "joined_rows (fd_id f) db \<noteq> []"
    by (auto simp: feed_group_def Let_def split: if_splits)
  from ne have sc: "?sc \<noteq> []" by (auto simp: joined_rows_def)
  have lj: "left_join ?ps \<noteq> []" by (simp add: left_join_def)
  have 1: "set (SR_LatestScrapes q) = set ?sc"
    using lj by (simp add: q set_order_desc joined_rows_def)
  have 2: "set (SR_LatestDatums q) = set ?ps"
  proof (cases "?ps = []")
    case True
    then show ?thesis by (simp add: q set_order_desc joined_rows_def left_join_def map_filter_none)
  next
    case False
    with sc show ?thesis
      by (simp add: q set_order_desc joined_rows_def left_join_def map_filter_some)
  qed
  from 1 2 show ?thesis by simp
qed

lemma lateral_scrapes_example:
  "lateral_scrapes 20 ex_history = [ex_scrape 7 20 SUCCESS 20 [], ex_scrape 6 20 SUCCESS 10 []]"
  by (simp add: lateral_scrapes_def order_desc_def ex_history_def ex_empty_def ex_scrape_def)

lemma lateral_posts_example:
  "lateral_posts 20 ex_history = [ex_stored 2 20 ''u2'' 21 22, ex_stored 1 20 ''u1'' 11 12]"
  by (simp add: lateral_posts_def order_desc_def ex_history_def ex_empty_def ex_stored_def)

text \<open>
  C7. A request of \<open>FindMissingSchedules\<close> is for a feed with no \<open>WAITING\<close> scrape (lemma
  \<open>FindMissingSchedules_no_waiting\<close>), and a feed with no post gets an empty list of posts
  (lemma \<open>feed_group_without_posts\<close>). The two lists hold the latest ten scrapes and the
  latest ten posts and no other row (lemma \<open>feed_group_rows\<close>), but not once each: both
  aggregates run over the joined rows, so a scrape comes back once for every post and a
  post once for every scrape (lemma \<open>feed_group_lengths\<close>). For the example feed, with
  two scrapes and two posts, each scrape and each post comes back twice.
\<close>

theorem FindMissingSchedules_repeats_rows:
  "FindMissingSchedules 10 ex_history
     = Inr [\<lparr>SR_FeedID = 20, SR_Plugin = ''example'',
             SR_LatestScrapes = [ex_scrape 7 20 SUCCESS 20 [], ex_scrape 7 20 SUCCESS 20 [],
                                 ex_scrape 6 20 SUCCESS 10 [], ex_scrape 6 20 SUCCESS 10 []],
             SR_LatestDatums = [ex_stored 2 20 ''u2'' 21 22, ex_stored 2 20 ''u2'' 21 22,
                                ex_stored 1 20 ''u1'' 11 12, ex_stored 1 20 ''u1'' 11 12]\<rparr>]"
proof -
  have w: "\<not> has_waiting 20 ex_history"
    by (simp add: has_waiting_def ex_history_def ex_empty_def ex_scrape_def)
  have j: "joined_rows 20 ex_history
     = [(ex_scrape 7 20 SUCCESS 20 [], Some (ex_stored 2 20 ''u2'' 21 22)),
        (ex_scrape 7 20 SUCCESS 20 [], Some (ex_stored 1 20 ''u1'' 11 12)),
        (ex_scrape 6 20 SUCCESS 10 [], Some (ex_stored 2 20 ''u2'' 21 22)),
        (ex_scrape 6 20 SUCCESS 10 [], Some (ex_stored 1 20 ''u1'' 11 12))]"
    by (simp add: joined_rows_def lateral_scrapes_example lateral_posts_example left_join_def)
  have g: "feed_group ex_history ex_feed
     = [\<lparr>SR_FeedID = 20, SR_Plugin = ''example'',
             SR_LatestScrapes = [ex_scrape 7 20 SUCCESS 20 [], ex_scrape 7 20 SUCCESS 20 [],
                                 ex_scrape 6 20 SUCCESS 10 [], ex_scrape 6 20 SUCCESS 10 []],
             SR_LatestDatums = [ex_stored 2 20 ''u2'' 21 22, ex_stored 2 20 ''u2'' 21 22,
                                ex_stored 1 20 ''u1'' 11 12, ex_stored 1 20 ''u1'' 11 12]\<rparr>]"
    by (simp add: feed_group_def ex_feed_def j w Let_def order_desc_def List.map_filter_simps)
       (simp add: ex_scrape_def ex_stored_def)
  have f: "feeds ex_history = [ex_feed]"
    by (simp add: ex_history_def ex_empty_def)
  show ?thesis by (simp add: FindMissingSchedules_def f g)
qed


subsection \<open>Feed membership\<close>

lemma CheckIfFeedExists_cases:
  obtains
    (absent) "filter (\<lambda>f. fd_url f = url \<and> fd_plugin f = plugin) (feeds db) = []"
      and "CheckIfFeedExists ff_accepts sessionKey folderID plugin url db = ((None, False, None), db)"
  | (failed) e where
      "CheckIfFeedExists ff_accepts sessionKey folderID plugin url db = ((None, False, Some e), db)"
  | (linked) f fs user where
      "filter (\<lambda>f. fd_url f = url \<and> fd_plugin f = plugin) (feeds db) = f # fs"
      and "CheckIfFeedExists ff_accepts sessionKey folderID plugin url db
           = ((Some \<lparr>Feed_ID = fd_id f, Feed_Title = fd_title f\<rparr>, True, None),
              db\<lparr>feed_folders := feed_folders db
                   @ [\<lparr>ff_user_id = user, ff_folder_id = folderID, ff_feed_id = fd_id f\<rparr>]\<rparr>)"
proof (cases "filter (\<lambda>f. fd_url f = url \<and> fd_plugin f = plugin) (feeds db)")
  case Nil
  then have "CheckIfFeedExists ff_accepts sessionKey folderID plugin url db = ((None, False, None), db)"
    by (simp add: CheckIfFeedExists_def)
  with Nil show thesis by (rule absent)
next
  case (Cons f fs)
  show thesis
  proof (cases "scalar_subquery (map se_user_id (filter (\<lambda>s. se_key s = sessionKey) (sessions db)))")
    case (Inl e)
    with Cons have "CheckIfFeedExists ff_accepts sessionKey folderID plugin url db
        = ((None, False, Some e), db)"
      by (simp add: CheckIfFeedExists_def)
    then show thesis by (rule failed)
  next
    case (Inr user)
    show thesis
    proof (cases "ff_accepts db \<lparr>ff_user_id = user, ff_folder_id = folderID, ff_feed_id = fd_id f\<rparr>")
      case True
      with Cons Inr have "CheckIfFeedExists ff_accepts sessionKey folderID plugin url db
           = ((Some \<lparr>Feed_ID = fd_id f, Feed_Title = fd_title f\<rparr>, True, None),
              db\<lparr>feed_folders := feed_folders db
                   @ [\<lparr>ff_user_id = user, ff_folder_id = folderID, ff_feed_id = fd_id f\<rparr>]\<rparr>)"
        by (simp add: CheckIfFeedExists_def Let_def)
      with Cons show thesis by (rule linked)
    next
      case False
      with Cons Inr have "CheckIfFeedExists ff_accepts sessionKey folderID plugin url db
        = ((None, False,
            Some (ErrorString ''new row for relation feed_folders violates a constraint'')), db)"
        by (simp add: CheckIfFeedExists_def Let_def)
      then show thesis by (rule failed)
    qed
  qed
qed

text \<open>
  C9. With no feed of this url and plugin, \<open>CheckIfFeedExists\<close> answers \<open>false\<close> and leaves
  the store as it was. With one, a session of the key and a membership row that the
  table accepts, it adds the row that links the feed to the folder for the session's
  user, and answers with the feed and \<open>true\<close>. Whenever it answers \<open>true\<close> the store has
  one membership row more; whenever it answers \<open>false\<close> the store is unchanged.
\<close>

theorem CheckIfFeedExists_links_folder:
  "(filter (\<lambda>f. fd_url f = url \<and> fd_plugin f = plugin) (feeds db) = [] \<longrightarrow>
      CheckIfFeedExists ff_accepts sessionKey folderID plugin url db = ((None, False, None), db))
   \<and> (filter (\<lambda>f. fd_url f = url \<and> fd_plugin f = plugin) (feeds db) = f # fs
      \<and> map se_user_id (filter (\<lambda>s. se_key s = sessionKey) (sessions db)) = [user]
      \<and> ff_accepts db \<lparr>ff_user_id = Some user, ff_folder_id = folderID, ff_feed_id = fd_id f\<rparr>
      \<longrightarrow> CheckIfFeedExists ff_accepts sessionKey folderID plugin url db
           = ((Some \<lparr>Feed_ID = fd_id f, Feed_Title = fd_title f\<rparr>, True, None),
              db\<lparr>feed_folders := feed_folders db
                   @ [\<lparr>ff_user_id = Some user, ff_folder_id = folderID, ff_feed_id = fd_id f\<rparr>]\<rparr>))
   \<and> (CheckIfFeedExists ff_accepts sessionKey folderID plugin url db = ((feed, True, err), db')
      \<longrightarrow> length (feed_folders db') = Suc (length (feed_folders db)))
   \<and> (CheckIfFeedExists ff_accepts sessionKey folderID plugin url db = ((feed, False, err), db')
      \<longrightarrow> db' = db)"
proof (intro conjI impI)
  assume "filter (\<lambda>f. fd_url f = url \<and> fd_plugin f = plugin) (feeds db) = []"
  then show "CheckIfFeedExists ff_accepts sessionKey folderID plugin url db = ((None, False, None), db)"
    by (simp add: CheckIfFeedExists_def)
next
  assume "filter (\<lambda>f. fd_url f = url \<and> fd_plugin f = plugin) (feeds db) = f # fs
      \<and> map se_user_id (filter (\<lambda>s. se_key s = sessionKey) (sessions db)) = [user]
      \<and> ff_accepts db \<lparr>ff_user_id = Some user, ff_folder_id = folderID, ff_feed_id = fd_id f\<rparr>"
  then show "CheckIfFeedExists ff_accepts sessionKey folderID plugin url db
           = ((Some \<lparr>Feed_ID = fd_id f, Feed_Title = fd_title f\<rparr>, True, None),
              db\<lparr>feed_folders := feed_folders db
                   @ [\<lparr>ff_user_id = Some user, ff_folder_id = folderID, ff_feed_id = fd_id f\<rparr>]\<rparr>)"
    by (simp add: CheckIfFeedExists_def scalar_subquery_def Let_def)
next
  assume t: "CheckIfFeedExists ff_accepts sessionKey folderID plugin url db = ((feed, True, err), db')"
  show "length (feed_folders db') = Suc (length (feed_folders db))"
  proof (cases rule: CheckIfFeedExists_cases[of url plugin db ff_accepts sessionKey folderID])
    case absent with t show ?thesis by simp
  next
    case (failed e) with t show ?thesis by simp
  next
    case (linked f fs user) with t show ?thesis by auto
  qed
next
  assume t: "CheckIfFeedExists ff_accepts sessionKey folderID plugin url db = ((feed, False, err), db')"
  show "db' = db"
  proof (cases rule: CheckIfFeedExists_cases[of url plugin db ff_accepts sessionKey folderID])
    case absent with t show ?thesis by simp
  next
    case (failed e) with t show ?thesis by simp
  next
    case (linked f fs user) with t show ?thesis by simp
  qed
qed


text \<open>The theorem at the example accounts: a known url, and an unknown one.\<close>

theorem CheckIfFeedExists_links_folder_witness:
  "filter (\<lambda>f. fd_url f = ex_url \<and> fd_plugin f = ''example'') (feeds ex_accounts) = [ex_feed]
   \<and> map se_user_id (filter (\<lambda>s. se_key s = ''k1'') (sessions ex_accounts)) = [7]
   \<and> ex_membership ex_accounts
        \<lparr>ff_user_id = Some 7, ff_folder_id = ''folder-1'', ff_feed_id = fd_id ex_feed\<rparr>
   \<and> filter (\<lambda>f. fd_url f = ''https://example.com/2'' \<and> fd_plugin f = ''example'')
        (feeds ex_accounts) = []
   \<and> CheckIfFeedExists ex_membership ''k1'' ''folder-1'' ''example'' ex_url ex_accounts
     = ((Some \<lparr>Feed_ID = 20, Feed_Title = ''Example''\<rparr>, True, None),
        ex_accounts\<lparr>feed_folders :=
          [\<lparr>ff_user_id = Some 7, ff_folder_id = ''folder-1'', ff_feed_id = 20\<rparr>]\<rparr>)
   \<and> CheckIfFeedExists ex_membership ''k1'' ''folder-1'' ''example'' ''https://example.com/2''
        ex_accounts
     = ((None, False, None), ex_accounts)"
proof -
  have f: "filter (\<lambda>f. fd_url f = ex_url \<and> fd_plugin f = ''example'') (feeds ex_accounts)
      = ex_feed # []"
    by (simp add: ex_accounts_def ex_history_def ex_empty_def ex_feed_def)
  have u: "map se_user_id (filter (\<lambda>s. se_key s = ''k1'') (sessions ex_accounts)) = [7]"
    by (simp add: ex_accounts_def ex_history_def ex_empty_def)
  have a: "ex_membership ex_accounts
      \<lparr>ff_user_id = Some 7, ff_folder_id = ''folder-1'', ff_feed_id = fd_id ex_feed\<rparr>"
    by (simp add: ex_membership_def ex_accounts_def ex_history_def ex_empty_def)
  have n: "filter (\<lambda>f. fd_url f = ''https://example.com/2'' \<and> fd_plugin f = ''example'')
      (feeds ex_accounts) = []"
    by (simp add: ex_accounts_def ex_history_def ex_empty_def ex_feed_def ex_url_def)
  have e: "feed_folders ex_accounts = []"
    by (simp add: ex_accounts_def ex_history_def ex_empty_def)
  from CheckIfFeedExists_links_folder[of ex_url "''example''" ex_accounts ex_membership
      "''k1''" "''folder-1''" ex_feed "[]" 7] f u a
  have 1: "CheckIfFeedExists ex_membership ''k1'' ''folder-1'' ''example'' ex_url ex_accounts
     = ((Some \<lparr>Feed_ID = fd_id ex_feed, Feed_Title = fd_title ex_feed\<rparr>, True, None),
        ex_accounts\<lparr>feed_folders := feed_folders ex_accounts
          @ [\<lparr>ff_user_id = Some 7, ff_folder_id = ''folder-1'', ff_feed_id = fd_id ex_feed\<rparr>]\<rparr>)"
    by simp
  from CheckIfFeedExists_links_folder[of "''https://example.com/2''" "''example''"
      ex_accounts ex_membership "''k1''" "''folder-1''"] n
  have 2: "CheckIfFeedExists ex_membership ''k1'' ''folder-1'' ''example''
      ''https://example.com/2'' ex_accounts = ((None, False, None), ex_accounts)"
    by simp
  have 3: "CheckIfFeedExists ex_membership ''k1'' ''folder-1'' ''example'' ex_url ex_accounts
     = ((Some \<lparr>Feed_ID = 20, Feed_Title = ''Example''\<rparr>, True, None),
        ex_accounts\<lparr>feed_folders :=
          [\<lparr>ff_user_id = Some 7, ff_folder_id = ''folder-1'', ff_feed_id = 20\<rparr>]\<rparr>)"
    using 1 e by (simp add: ex_feed_def)
  from f u a n 2 3 show ?thesis by simp
qed

subsection \<open>Adding a feed\<close>

lemma PluginForEntrypoint_found:
  "PluginForEntrypoint reg url bl = Inr (p, opts) \<Longrightarrow>
   p \<in> set reg \<and> accepts_url p url \<and> Name p \<notin> set bl \<and> opts = \<lparr>RouteParams = []\<rparr>"
  by (induction reg) (auto split: if_splits)

lemma PluginForEntrypoint_first:
  "PluginForEntrypoint reg url bl = Inr (p, opts) \<Longrightarrow>
   \<exists>before rest. reg = before @ p # rest
     \<and> filter (\<lambda>q. accepts_url q url \<and> Name q \<notin> set bl) before = []"
proof (induction reg)
  case Nil then show ?case by simp
next
  case (Cons q reg)
  show ?case
  proof (cases "accepts_url q url \<and> Name q \<notin> set bl")
    case True
    with Cons.prems have "p = q" by simp
    then have "q # reg = [] @ p # reg \<and> filter (\<lambda>q. accepts_url q url \<and> Name q \<notin> set bl) [] = []"
      by simp
    then show ?thesis by blast
  next
    case False
    with Cons.prems have "PluginForEntrypoint reg url bl = Inr (p, opts)" by simp
    from Cons.IH[OF this] obtain before rest where
      "reg = before @ p # rest" "filter (\<lambda>q. accepts_url q url \<and> Name q \<notin> set bl) before = []"
      by blast
    with False have "q # reg = (q # before) @ p # rest
        \<and> filter (\<lambda>q. accepts_url q url \<and> Name q \<notin> set bl) (q # before) = []"
      by simp
    then show ?thesis by blast
  qed
qed

lemma PluginForEntrypoint_none:
  "PluginForEntrypoint reg url bl = Inl e \<longleftrightarrow>
   e = NoPluginFound \<and> filter (\<lambda>q. accepts_url q url \<and> Name q \<notin> set bl) reg = []"
  by (induction reg) auto

lemma respond_Inl:
  "respond w answer st = (Inl err, st') \<longleftrightarrow> w answer = Some err \<and> st' = st"
  by (cases "w answer") (auto simp add: respond_def)

lemma respond_Inr:
  "respond w answer st = (Inr a, st') \<longleftrightarrow> w answer = None \<and> a = answer \<and> st' = st"
  by (cases "w answer") (auto simp add: respond_def)

lemma AddFeed_loop_cases:
  obtains
    (no_plugin) "PluginForEntrypoint reg url bl = Inl NoPluginFound"
      and "AddFeed_loop S reg w key folderID url bl st = (Inl NoPluginFound, st)"
  | (check_failed) p opts f ok e st1 where "PluginForEntrypoint reg url bl = Inr (p, opts)"
      and "fs_CheckIfFeedExists S key folderID (Name p) url st = ((f, ok, Some e), st1)"
      and "AddFeed_loop S reg w key folderID url bl st = (Inl e, st1)"
  | (nil_feed) p opts st1 where "PluginForEntrypoint reg url bl = Inr (p, opts)"
      and "fs_CheckIfFeedExists S key folderID (Name p) url st = ((None, True, None), st1)"
      and "AddFeed_loop S reg w key folderID url bl st
           = (Inl (Panic ''nil pointer dereference''), st1)"
  | (known) p opts f st1 where "PluginForEntrypoint reg url bl = Inr (p, opts)"
      and "fs_CheckIfFeedExists S key folderID (Name p) url st = ((Some f, True, None), st1)"
      and "AddFeed_loop S reg w key folderID url bl st
           = respond w (Feed_ID f, Feed_Title f) st1"
  | (no_creator) p opts f st1 where "PluginForEntrypoint reg url bl = Inr (p, opts)"
      and "fs_CheckIfFeedExists S key folderID (Name p) url st = ((f, False, None), st1)"
      and "ConfigCreator p = None"
      and "AddFeed_loop S reg w key folderID url bl st
           = (Inl (Panic ''nil pointer dereference''), st1)"
  | (bound) p opts f st1 create e where "PluginForEntrypoint reg url bl = Inr (p, opts)"
      and "fs_CheckIfFeedExists S key folderID (Name p) url st = ((f, False, None), st1)"
      and "ConfigCreator p = Some create"
      and "create url opts = Inl e" and "length bl = maxFailedResolutions"
      and "AddFeed_loop S reg w key folderID url bl st = (Inl e, st1)"
  | (retry) p opts f st1 create e where "PluginForEntrypoint reg url bl = Inr (p, opts)"
      and "fs_CheckIfFeedExists S key folderID (Name p) url st = ((f, False, None), st1)"
      and "ConfigCreator p = Some create"
      and "create url opts = Inl e" and "length bl \<noteq> maxFailedResolutions"
      and "AddFeed_loop S reg w key folderID url bl st
           = AddFeed_loop S reg w key folderID url (bl @ [Name p]) st1"
  | (add_failed) p opts f st1 create title cfg e st2
      where "PluginForEntrypoint reg url bl = Inr (p, opts)"
      and "fs_CheckIfFeedExists S key folderID (Name p) url st = ((f, False, None), st1)"
      and "ConfigCreator p = Some create"
      and "create url opts = Inr (title, cfg)"
      and "fs_AddFeed S key folderID title (Name p) url cfg st1 = (Inl e, st2)"
      and "AddFeed_loop S reg w key folderID url bl st = (Inl e, st2)"
  | (added) p opts f st1 create title cfg new_id st2
      where "PluginForEntrypoint reg url bl = Inr (p, opts)"
      and "fs_CheckIfFeedExists S key folderID (Name p) url st = ((f, False, None), st1)"
      and "ConfigCreator p = Some create"
      and "create url opts = Inr (title, cfg)"
      and "fs_AddFeed S key folderID title (Name p) url cfg st1 = (Inr new_id, st2)"
      and "AddFeed_loop S reg w key folderID url bl st = respond w (new_id, title) st2"
proof (cases "PluginForEntrypoint reg url bl")
  case (Inl e)
  then have e: "e = NoPluginFound" by (simp add: PluginForEntrypoint_none)
  with Inl have "AddFeed_loop S reg w key folderID url bl st = (Inl NoPluginFound, st)"
    by (subst AddFeed_loop.simps) simp
  with Inl e show thesis by (intro no_plugin) simp_all
next
  case (Inr po)
  obtain p opts where po: "po = (p, opts)" by (cases po)
  obtain f ok eo st1 where c: "fs_CheckIfFeedExists S key folderID (Name p) url st = ((f, ok, eo), st1)"
    by (metis prod_cases3 surj_pair)
  show thesis
  proof (cases eo)
    case (Some e)
    with Inr po c have "AddFeed_loop S reg w key folderID url bl st = (Inl e, st1)"
      by (subst AddFeed_loop.simps) simp
    with Inr po c Some show thesis by (intro check_failed[of p opts f ok e st1]) simp_all
  next
    case None
    show thesis
    proof (cases ok)
      case True
      show thesis
      proof (cases f)
        case fn: None
        with Inr po c None True have "AddFeed_loop S reg w key folderID url bl st
            = (Inl (Panic ''nil pointer dereference''), st1)"
          by (subst AddFeed_loop.simps) simp
        with Inr po c None True fn show thesis by (intro nil_feed[of p opts st1]) simp_all
      next
        case (Some fd)
        with Inr po c None True have "AddFeed_loop S reg w key folderID url bl st
            = respond w (Feed_ID fd, Feed_Title fd) st1"
          by (subst AddFeed_loop.simps) simp
        with Inr po c None True Some show thesis by (intro known[of p opts fd st1]) simp_all
      qed
    next
      case False
      show thesis
      proof (cases "ConfigCreator p")
        case nc: None
        with Inr po c None False have "AddFeed_loop S reg w key folderID url bl st
            = (Inl (Panic ''nil pointer dereference''), st1)"
          by (subst AddFeed_loop.simps) simp
        with Inr po c None False nc show thesis by (intro no_creator[of p opts f st1]) simp_all
      next
        case sc: (Some create)
        show thesis
        proof (cases "create url opts")
          case cc: (Inl e)
          show thesis
          proof (cases "length bl = maxFailedResolutions")
            case True
            with Inr po c None False sc cc
            have "AddFeed_loop S reg w key folderID url bl st = (Inl e, st1)"
              by (subst AddFeed_loop.simps) simp
            with Inr po c None False sc cc True show thesis
              by (intro bound[of p opts f st1 create e]) simp_all
          next
            case nb: False
            with Inr po c None False sc cc have "AddFeed_loop S reg w key folderID url bl st
                 = AddFeed_loop S reg w key folderID url (bl @ [Name p]) st1"
              by (subst AddFeed_loop.simps) simp
            with Inr po c None False sc cc nb show thesis
              by (intro retry[of p opts f st1 create e]) simp_all
          qed
        next
          case cc: (Inr tc)
          obtain title cfg where tc: "tc = (title, cfg)" by (cases tc)
          show thesis
          proof (cases "fs_AddFeed S key folderID title (Name p) url cfg st1")
            case (Pair res st2)
            show thesis
            proof (cases res)
              case (Inl e)
              with Inr po c None False sc cc tc Pair
              have "AddFeed_loop S reg w key folderID url bl st = (Inl e, st2)"
                by (subst AddFeed_loop.simps) simp
              with Inr po c None False sc cc tc Pair Inl show thesis
                by (intro add_failed[of p opts f st1 create title cfg e st2]) simp_all
            next
              case r: (Inr new_id)
              with Inr po c None False sc cc tc Pair
              have "AddFeed_loop S reg w key folderID url bl st = respond w (new_id, title) st2"
                by (subst AddFeed_loop.simps) simp
              with Inr po c None False sc cc tc Pair r show thesis
                by (intro added[of p opts f st1 create title cfg new_id st2]) simp_all
            qed
          qed
        qed
      qed
    qed
  qed
qed


lemma AddFeed_loop_failure:
  assumes fail: "AddFeed_loop S reg w key folderID url bl st = (Inl err, st')"
    and len: "length bl \<le> maxFailedResolutions"
  shows "\<exists>names st0. length (bl @ names) \<le> maxFailedResolutions \<and>
     ((err = NoPluginFound
         \<and> filter (\<lambda>x. accepts_url x url \<and> Name x \<notin> set (bl @ names)) reg = [])
      \<or> (\<exists>p opts. PluginForEntrypoint reg url (bl @ names) = Inr (p, opts) \<and>
           ((\<exists>f ok st1. fs_CheckIfFeedExists S key folderID (Name p) url st0
                          = ((f, ok, Some err), st1))
            \<or> (\<exists>st1. fs_CheckIfFeedExists S key folderID (Name p) url st0
                          = ((None, True, None), st1)
                    \<and> err = Panic ''nil pointer dereference'')
            \<or> (\<exists>f st1. fs_CheckIfFeedExists S key folderID (Name p) url st0
                          = ((Some f, True, None), st1)
                    \<and> w (Feed_ID f, Feed_Title f) = Some err)
            \<or> (\<exists>f st1. fs_CheckIfFeedExists S key folderID (Name p) url st0
                          = ((f, False, None), st1)
                 \<and> ((ConfigCreator p = None \<and> err = Panic ''nil pointer dereference'')
                     \<or> (\<exists>create. ConfigCreator p = Some create
                          \<and> ((create url opts = Inl err \<and> length (bl @ names) = maxFailedResolutions)
                              \<or> (\<exists>title cfg. create url opts = Inr (title, cfg)
                                   \<and> ((\<exists>st2. fs_AddFeed S key folderID title (Name p) url cfg
                                               st1 = (Inl err, st2))
                                       \<or> (\<exists>new_id st2.
                                              fs_AddFeed S key folderID title (Name p) url cfg
                                                st1 = (Inr new_id, st2)
                                            \<and> w (new_id, title) = Some err))))))))))"
  using fail len
proof (induction "maxFailedResolutions - length bl" arbitrary: bl st rule: less_induct)
  case less
  define cause where "cause = (\<lambda>b st0.
      (err = NoPluginFound
         \<and> filter (\<lambda>x. accepts_url x url \<and> Name x \<notin> set b) reg = [])
      \<or> (\<exists>p opts. PluginForEntrypoint reg url b = Inr (p, opts) \<and>
           ((\<exists>f ok st1. fs_CheckIfFeedExists S key folderID (Name p) url st0
                          = ((f, ok, Some err), st1))
            \<or> (\<exists>st1. fs_CheckIfFeedExists S key folderID (Name p) url st0
                          = ((None, True, None), st1)
                    \<and> err = Panic ''nil pointer dereference'')
            \<or> (\<exists>f st1. fs_CheckIfFeedExists S key folderID (Name p) url st0
                          = ((Some f, True, None), st1)
                    \<and> w (Feed_ID f, Feed_Title f) = Some err)
            \<or> (\<exists>f st1. fs_CheckIfFeedExists S key folderID (Name p) url st0
                          = ((f, False, None), st1)
                 \<and> ((ConfigCreator p = None \<and> err = Panic ''nil pointer dereference'')
                     \<or> (\<exists>create. ConfigCreator p = Some create
                          \<and> ((create url opts = Inl err \<and> length b = maxFailedResolutions)
                              \<or> (\<exists>title cfg. create url opts = Inr (title, cfg)
                                   \<and> ((\<exists>st2. fs_AddFeed S key folderID title (Name p) url cfg
                                               st1 = (Inl err, st2))
                                       \<or> (\<exists>new_id st2.
                                              fs_AddFeed S key folderID title (Name p) url cfg
                                                st1 = (Inr new_id, st2)
                                            \<and> w (new_id, title) = Some err))))))))))"
  have here: "\<exists>names st0. length (bl @ names) \<le> maxFailedResolutions \<and> cause (bl @ names) st0"
    if "cause bl st"
    using that less.prems(2) by (intro exI[of _ "[]"] exI[of _ st]) simp
  have "\<exists>names st0. length (bl @ names) \<le> maxFailedResolutions \<and> cause (bl @ names) st0"
  proof (cases rule: AddFeed_loop_cases[of reg url bl S w key folderID st])
    case no_plugin
    with less.prems(1) have "err = NoPluginFound" by simp
    moreover from no_plugin(1)
    have "filter (\<lambda>q. accepts_url q url \<and> Name q \<notin> set bl) reg = []"
      by (simp add: PluginForEntrypoint_none)
    ultimately have "cause bl st" by (simp add: cause_def)
    then show ?thesis by (rule here)
  next
    case (check_failed p opts f ok e st1)
    with less.prems(1) have "e = err" by simp
    with check_failed have "cause bl st" unfolding cause_def by blast
    then show ?thesis by (rule here)
  next
    case (nil_feed p opts st1)
    with less.prems(1) have "err = Panic ''nil pointer dereference''" by simp
    with nil_feed have "cause bl st" unfolding cause_def by blast
    then show ?thesis by (rule here)
  next
    case (known p opts f st1)
    with less.prems(1) have "w (Feed_ID f, Feed_Title f) = Some err"
      by (simp add: respond_Inl)
    with known have "cause bl st" unfolding cause_def by blast
    then show ?thesis by (rule here)
  next
    case (no_creator p opts f st1)
    with less.prems(1) have "err = Panic ''nil pointer dereference''" by simp
    with no_creator have "cause bl st" unfolding cause_def by blast
    then show ?thesis by (rule here)
  next
    case (bound p opts f st1 create e)
    with less.prems(1) have "e = err" by simp
    with bound have "cause bl st" unfolding cause_def by blast
    then show ?thesis by (rule here)
  next
    case (retry p opts f st1 create e)
    from retry(5) less.prems(2) have lt: "length bl < maxFailedResolutions" by simp
    then have m: "maxFailedResolutions - length (bl @ [Name p]) < maxFailedResolutions - length bl"
      and l: "length (bl @ [Name p]) \<le> maxFailedResolutions" by simp_all
    from retry(6) less.prems(1)
    have f: "AddFeed_loop S reg w key folderID url (bl @ [Name p]) st1 = (Inl err, st')" by simp
    from less.hyps[OF m f l] obtain names st0 where
      "length ((bl @ [Name p]) @ names) \<le> maxFailedResolutions"
      "cause ((bl @ [Name p]) @ names) st0"
      unfolding cause_def by blast
    then have "length (bl @ (Name p # names)) \<le> maxFailedResolutions
        \<and> cause (bl @ (Name p # names)) st0" by simp
    then show ?thesis by blast
  next
    case (add_failed p opts f st1 create title cfg e st2)
    with less.prems(1) have "e = err" by simp
    with add_failed have "cause bl st" unfolding cause_def by blast
    then show ?thesis by (rule here)
  next
    case (added p opts f st1 create title cfg new_id st2)
    with less.prems(1) have "w (new_id, title) = Some err"
      by (simp add: respond_Inl)
    with added have "cause bl st" unfolding cause_def by blast
    then show ?thesis by (rule here)
  qed
  then show ?case unfolding cause_def .
qed


text \<open>
  C8, as it stands, fails: \<open>AddFeed\<close> also returns the errors of the store. Here the only
  plugin accepts the url, its config creator succeeds and the blacklist is empty, and
  \<open>AddFeed\<close> fails with the error of the store's \<open>AddFeed\<close>.
\<close>

theorem AddFeed_store_error_counterexample:
  "AddFeed (ex_api ex_failing_store [ex_working_plugin ''alpha'']) ex_decoder ex_writer
       ex_request ()
     = (Inl (ErrorString ''could not insert the feed''), ())
   \<and> PluginForEntrypoint [ex_working_plugin ''alpha''] ex_url []
       = Inr (ex_working_plugin ''alpha'', \<lparr>RouteParams = []\<rparr>)
   \<and> map_option (\<lambda>create. create ex_url \<lparr>RouteParams = []\<rparr>)
         (ConfigCreator (ex_working_plugin ''alpha''))
       = Some (Inr (''Example feed'', \<lparr>Entrypoints = [ex_url], Payload = []\<rparr>))"
  by (simp add: AddFeed_def ex_api_def ex_decoder_def ex_request_def ex_url_def
      AddFeed_loop.simps accepts_url_def ex_working_plugin_def ex_failing_store_def
      maxFailedResolutions_def)


text \<open>
  C8, amended. When the resolved plugin's config creator fails for a feed the store does
  not know, and the blacklist does not yet hold \<open>maxFailedResolutions\<close> names, the loop
  goes on with the plugin's name appended to the blacklist, for the same url; a resolved
  plugin is one of the registry that accepts the url and whose name is not in the
  blacklist. \<open>AddFeed\<close> fails only when: the key is refused; the body is not decoded; the
  url is empty; or, at some blacklist of at most \<open>maxFailedResolutions\<close> names, no plugin
  outside the blacklist accepts the url, or the store's \<open>CheckIfFeedExists\<close> fails (or
  answers \<open>true\<close> with no feed), or the feed is known and the response is not written, or
  the resolved plugin has no config creator, or its config creator fails with the
  blacklist at \<open>maxFailedResolutions\<close> names, or the store's \<open>AddFeed\<close> fails, or the feed
  is added and the response is not written.
\<close>

theorem AddFeed_blacklist_and_failures:
  "(PluginForEntrypoint reg url bl = Inr (p, opts)
      \<and> fs_CheckIfFeedExists S key folderID (Name p) url st = ((f, False, None), st1)
      \<and> ConfigCreator p = Some create
      \<and> create url opts = Inl e \<and> length bl \<noteq> maxFailedResolutions
      \<longrightarrow> AddFeed_loop S reg w key folderID url bl st
           = AddFeed_loop S reg w key folderID url (bl @ [Name p]) st1)
   \<and> (PluginForEntrypoint reg url bl = Inr (p, opts)
      \<longrightarrow> p \<in> set reg \<and> accepts_url p url \<and> Name p \<notin> set bl)
   \<and> (AddFeed fa limitDecoder w req s0 = (Inl err, s')
      \<longrightarrow> api_ks_Verify fa (X_Hydrocarbon_Key req) = Inl err
         \<or> (\<exists>k. api_ks_Verify fa (X_Hydrocarbon_Key req) = Inr k
              \<and> (limitDecoder (Body req) = Inl err
                 \<or> (\<exists>folder. limitDecoder (Body req) = Inr (folder, [])
                         \<and> err = ErrorString ''one of url or plugin is empty'')
                 \<or> (\<exists>folder u blacklist s1. limitDecoder (Body req) = Inr (folder, u)
                      \<and> length blacklist \<le> maxFailedResolutions
                      \<and> ((err = NoPluginFound
                             \<and> filter (\<lambda>x. accepts_url x u \<and> Name x \<notin> set blacklist) (api_dc_plugins fa) = [])
                          \<or> (\<exists>q ho. PluginForEntrypoint (api_dc_plugins fa) u blacklist = Inr (q, ho) \<and>
                               ((\<exists>d ok s2. fs_CheckIfFeedExists (api_s fa) k folder (Name q) u s1
                                              = ((d, ok, Some err), s2))
                                \<or> (\<exists>s2. fs_CheckIfFeedExists (api_s fa) k folder (Name q) u s1
                                              = ((None, True, None), s2)
                                        \<and> err = Panic ''nil pointer dereference'')
                                \<or> (\<exists>d s2. fs_CheckIfFeedExists (api_s fa) k folder (Name q) u s1
                                              = ((Some d, True, None), s2)
                                        \<and> w (Feed_ID d, Feed_Title d) = Some err)
                                \<or> (\<exists>d s2. fs_CheckIfFeedExists (api_s fa) k folder (Name q) u s1
                                              = ((d, False, None), s2)
                                     \<and> ((ConfigCreator q = None \<and> err = Panic ''nil pointer dereference'')
                                         \<or> (\<exists>creator. ConfigCreator q = Some creator
                                              \<and> ((creator u ho = Inl err \<and> length blacklist = maxFailedResolutions)
                                                  \<or> (\<exists>title cfg. creator u ho = Inr (title, cfg)
                                                       \<and> ((\<exists>s3. fs_AddFeed (api_s fa) k folder title (Name q) u cfg
                                                                   s2 = (Inl err, s3))
                                                           \<or> (\<exists>new_id s3.
                                                                  fs_AddFeed (api_s fa) k folder title (Name q) u cfg
                                                                    s2 = (Inr new_id, s3)
                                                                \<and> w (new_id, title) = Some err))))))))))))))"
proof (intro conjI impI)
  assume a: "PluginForEntrypoint reg url bl = Inr (p, opts)
      \<and> fs_CheckIfFeedExists S key folderID (Name p) url st = ((f, False, None), st1)
      \<and> ConfigCreator p = Some create
      \<and> create url opts = Inl e \<and> length bl \<noteq> maxFailedResolutions"
  then show "AddFeed_loop S reg w key folderID url bl st
           = AddFeed_loop S reg w key folderID url (bl @ [Name p]) st1"
    by (subst AddFeed_loop.simps) simp
next
  assume "PluginForEntrypoint reg url bl = Inr (p, opts)"
  from PluginForEntrypoint_found[OF this] show "p \<in> set reg" "accepts_url p url" "Name p \<notin> set bl"
    by simp_all
next
  assume fail: "AddFeed fa limitDecoder w req s0 = (Inl err, s')"
  let ?goal = "api_ks_Verify fa (X_Hydrocarbon_Key req) = Inl err
               \<or> (\<exists>k. api_ks_Verify fa (X_Hydrocarbon_Key req) = Inr k
                    \<and> (limitDecoder (Body req) = Inl err
                       \<or> (\<exists>folder. limitDecoder (Body req) = Inr (folder, [])
                               \<and> err = ErrorString ''one of url or plugin is empty'')
                       \<or> (\<exists>folder u blacklist s1. limitDecoder (Body req) = Inr (folder, u)
                            \<and> length blacklist \<le> maxFailedResolutions
                            \<and> ((err = NoPluginFound
                                   \<and> filter (\<lambda>x. accepts_url x u \<and> Name x \<notin> set blacklist) (api_dc_plugins fa) = [])
                                \<or> (\<exists>q ho. PluginForEntrypoint (api_dc_plugins fa) u blacklist = Inr (q, ho) \<and>
                                     ((\<exists>d ok s2. fs_CheckIfFeedExists (api_s fa) k folder (Name q) u s1
                                                    = ((d, ok, Some err), s2))
                                      \<or> (\<exists>s2. fs_CheckIfFeedExists (api_s fa) k folder (Name q) u s1
                                                    = ((None, True, None), s2)
                                              \<and> err = Panic ''nil pointer dereference'')
                                      \<or> (\<exists>d s2. fs_CheckIfFeedExists (api_s fa) k folder (Name q) u s1
                                                    = ((Some d, True, None), s2)
                                              \<and> w (Feed_ID d, Feed_Title d) = Some err)
                                      \<or> (\<exists>d s2. fs_CheckIfFeedExists (api_s fa) k folder (Name q) u s1
                                                    = ((d, False, None), s2)
                                           \<and> ((ConfigCreator q = None \<and> err = Panic ''nil pointer dereference'')
                                               \<or> (\<exists>creator. ConfigCreator q = Some creator
                                                    \<and> ((creator u ho = Inl err \<and> length blacklist = maxFailedResolutions)
                                                        \<or> (\<exists>title cfg. creator u ho = Inr (title, cfg)
                                                             \<and> ((\<exists>s3. fs_AddFeed (api_s fa) k folder title (Name q) u cfg
                                                                         s2 = (Inl err, s3))
                                                                 \<or> (\<exists>new_id s3.
                                                                        fs_AddFeed (api_s fa) k folder title (Name q) u cfg
                                                                          s2 = (Inr new_id, s3)
                                                                      \<and> w (new_id, title) = Some err)))))))))))))"
  show ?goal
  proof (cases "api_ks_Verify fa (X_Hydrocarbon_Key req)")
    case (Inl e1)
    with fail have "e1 = err" by (simp add: AddFeed_def)
    with Inl show ?thesis by simp
  next
    case (Inr k)
    show ?thesis
    proof (cases "limitDecoder (Body req)")
      case (Inl e2)
      with fail Inr have "e2 = err" by (simp add: AddFeed_def)
      with Inl Inr show ?thesis by simp
    next
      case dec: (Inr fu)
      obtain fo u where fu: "fu = (fo, u)" by (cases fu)
      show ?thesis
      proof (cases "u = []")
        case True
        with fail Inr dec fu have "err = ErrorString ''one of url or plugin is empty''"
          by (simp add: AddFeed_def)
        with Inr dec fu True show ?thesis by simp
      next
        case False
        with fail Inr dec fu
        have loop: "AddFeed_loop (api_s fa) (api_dc_plugins fa) w k fo u [] s0 = (Inl err, s')"
          by (simp add: AddFeed_def)
        have "length ([]::string list) \<le> maxFailedResolutions" by simp
        from AddFeed_loop_failure[OF loop this]
        have "\<exists>names s1. length names \<le> maxFailedResolutions \<and>
            ((err = NoPluginFound
                \<and> filter (\<lambda>x. accepts_url x u \<and> Name x \<notin> set names) (api_dc_plugins fa) = [])
             \<or> (\<exists>q ho. PluginForEntrypoint (api_dc_plugins fa) u names = Inr (q, ho) \<and>
                  ((\<exists>d ok s2. fs_CheckIfFeedExists (api_s fa) k fo (Name q) u s1
                                 = ((d, ok, Some err), s2))
                   \<or> (\<exists>s2. fs_CheckIfFeedExists (api_s fa) k fo (Name q) u s1
                                 = ((None, True, None), s2)
                           \<and> err = Panic ''nil pointer dereference'')
                   \<or> (\<exists>d s2. fs_CheckIfFeedExists (api_s fa) k fo (Name q) u s1
                                 = ((Some d, True, None), s2)
                           \<and> w (Feed_ID d, Feed_Title d) = Some err)
                   \<or> (\<exists>d s2. fs_CheckIfFeedExists (api_s fa) k fo (Name q) u s1
                                 = ((d, False, None), s2)
                        \<and> ((ConfigCreator q = None \<and> err = Panic ''nil pointer dereference'')
                            \<or> (\<exists>creator. ConfigCreator q = Some creator
                                 \<and> ((creator u ho = Inl err \<and> length names = maxFailedResolutions)
                                     \<or> (\<exists>title cfg. creator u ho = Inr (title, cfg)
                                          \<and> ((\<exists>s3. fs_AddFeed (api_s fa) k fo title (Name q) u cfg
                                                      s2 = (Inl err, s3))
                                              \<or> (\<exists>new_id s3.
                                                     fs_AddFeed (api_s fa) k fo title (Name q) u cfg
                                                       s2 = (Inr new_id, s3)
                                                   \<and> w (new_id, title) = Some err))))))))))"
          by simp
        then obtain names s1 where
          l: "length names \<le> maxFailedResolutions" and
          c: "(err = NoPluginFound
                \<and> filter (\<lambda>x. accepts_url x u \<and> Name x \<notin> set names) (api_dc_plugins fa) = [])
             \<or> (\<exists>q ho. PluginForEntrypoint (api_dc_plugins fa) u names = Inr (q, ho) \<and>
                  ((\<exists>d ok s2. fs_CheckIfFeedExists (api_s fa) k fo (Name q) u s1
                                 = ((d, ok, Some err), s2))
                   \<or> (\<exists>s2. fs_CheckIfFeedExists (api_s fa) k fo (Name q) u s1
                                 = ((None, True, None), s2)
                           \<and> err = Panic ''nil pointer dereference'')
                   \<or> (\<exists>d s2. fs_CheckIfFeedExists (api_s fa) k fo (Name q) u s1
                                 = ((Some d, True, None), s2)
                           \<and> w (Feed_ID d, Feed_Title d) = Some err)
                   \<or> (\<exists>d s2. fs_CheckIfFeedExists (api_s fa) k fo (Name q) u s1
                                 = ((d, False, None), s2)
                        \<and> ((ConfigCreator q = None \<and> err = Panic ''nil pointer dereference'')
                            \<or> (\<exists>creator. ConfigCreator q = Some creator
                                 \<and> ((creator u ho = Inl err \<and> length names = maxFailedResolutions)
                                     \<or> (\<exists>title cfg. creator u ho = Inr (title, cfg)
                                          \<and> ((\<exists>s3. fs_AddFeed (api_s fa) k fo title (Name q) u cfg
                                                      s2 = (Inl err, s3))
                                              \<or> (\<exists>new_id s3.
                                                     fs_AddFeed (api_s fa) k fo title (Name q) u cfg
                                                       s2 = (Inr new_id, s3)
                                                   \<and> w (new_id, title) = Some err)))))))))"
          by blast
        from dec fu have d: "limitDecoder (Body req) = Inr (fo, u)" by simp
        show ?thesis
          apply (rule disjI2)
          apply (rule exI[of _ k])
          apply (rule conjI[OF Inr])
          apply (rule disjI2)
          apply (rule disjI2)
          apply (rule exI[of _ fo], rule exI[of _ u], rule exI[of _ names], rule exI[of _ s1])
          apply (rule conjI[OF d conjI[OF l c]])
          done
      qed
    qed
  qed
qed


text \<open>
  The theorem at the example registry: nine plugins whose config creator fails, then one
  whose config creator succeeds. The first failure puts \<open>a\<close> on the blacklist; the ninth
  plugin is resolved with eight names on the blacklist, and its error ends \<open>AddFeed\<close>.
  With one plugin that has no config creator the call ends in the panic, and with a
  response that cannot be written it ends in that error, the feed being added.
\<close>

theorem AddFeed_blacklist_and_failures_witness:
  "PluginForEntrypoint ex_registry ex_url [] = Inr (ex_failing_plugin ''a'', \<lparr>RouteParams = []\<rparr>)
   \<and> fs_CheckIfFeedExists ex_feed_store ''key'' [] (Name (ex_failing_plugin ''a'')) ex_url ()
       = ((None, False, None), ())
   \<and> map_option (\<lambda>create. create ex_url \<lparr>RouteParams = []\<rparr>)
         (ConfigCreator (ex_failing_plugin ''a''))
       = Some (Inl (ErrorString ''a cannot read the page''))
   \<and> length ([]::string list) \<noteq> maxFailedResolutions
   \<and> AddFeed_loop ex_feed_store ex_registry ex_writer ''key'' [] ex_url [] ()
       = AddFeed_loop ex_feed_store ex_registry ex_writer ''key'' [] ex_url [''a''] ()
   \<and> AddFeed (ex_api ex_feed_store ex_registry) ex_decoder ex_writer ex_request ()
       = (Inl (ErrorString ''i cannot read the page''), ())
   \<and> PluginForEntrypoint ex_registry ex_url [''a'', ''b'', ''c'', ''d'', ''e'', ''f'', ''g'', ''h'']
       = Inr (ex_failing_plugin ''i'', \<lparr>RouteParams = []\<rparr>)
   \<and> length [''a'', ''b'', ''c'', ''d'', ''e'', ''f'', ''g'', ''h''] = maxFailedResolutions
   \<and> AddFeed (ex_api ex_feed_store [ex_unset_plugin ''fictionpress'']) ex_decoder ex_writer
         ex_request ()
       = (Inl (Panic ''nil pointer dereference''), ())
   \<and> AddFeed (ex_api ex_feed_store [ex_working_plugin ''alpha'']) ex_decoder ex_broken_writer
         ex_request ()
       = (Inl (ErrorString ''broken pipe''), ())
   \<and> AddFeed (ex_api ex_feed_store [ex_working_plugin ''alpha'']) ex_decoder ex_writer
         ex_request ()
       = (Inr (1, ''Example feed''), ())"
proof -
  have r: "PluginForEntrypoint ex_registry ex_url []
      = Inr (ex_failing_plugin ''a'', \<lparr>RouteParams = []\<rparr>)"
    by (simp add: ex_registry_def accepts_url_def ex_failing_plugin_def)
  have c: "fs_CheckIfFeedExists ex_feed_store ''key'' [] (Name (ex_failing_plugin ''a'')) ex_url ()
      = ((None, False, None), ())"
    by (simp add: ex_feed_store_def)
  have cr: "ConfigCreator (ex_failing_plugin ''a'')
      = Some (\<lambda>url opts. Inl (ErrorString (''a'' @ '' cannot read the page'')))"
    by (simp add: ex_failing_plugin_def)
  have e: "(\<lambda>url opts. Inl (ErrorString (''a'' @ '' cannot read the page'')))
             ex_url \<lparr>RouteParams = []\<rparr>
      = (Inl (ErrorString ''a cannot read the page'') :: error + (string \<times> Config))"
    by simp
  have m: "map_option (\<lambda>create. create ex_url \<lparr>RouteParams = []\<rparr>)
         (ConfigCreator (ex_failing_plugin ''a''))
       = Some (Inl (ErrorString ''a cannot read the page''))"
    by (simp add: ex_failing_plugin_def)
  have l: "length ([]::string list) \<noteq> maxFailedResolutions"
    by (simp add: maxFailedResolutions_def)
  have n: "Name (ex_failing_plugin ''a'') = ''a''" by (simp add: ex_failing_plugin_def)
  from AddFeed_blacklist_and_failures[where reg = ex_registry and url = ex_url and bl = "[]"
      and p = "ex_failing_plugin ''a''" and opts = "\<lparr>RouteParams = []\<rparr>"
      and S = ex_feed_store and key = "''key''" and folderID = "[]" and st = "()"
      and f = None and ?st1.0 = "()" and e = "ErrorString ''a cannot read the page''"
      and create = "\<lambda>url opts. Inl (ErrorString (''a'' @ '' cannot read the page''))"
      and w = ex_writer,
      THEN conjunct1] r c cr e l n
  have step: "AddFeed_loop ex_feed_store ex_registry ex_writer ''key'' [] ex_url [] ()
       = AddFeed_loop ex_feed_store ex_registry ex_writer ''key'' [] ex_url [''a''] ()"
    by simp
  have run: "AddFeed (ex_api ex_feed_store ex_registry) ex_decoder ex_writer ex_request ()
       = (Inl (ErrorString ''i cannot read the page''), ())"
    by (simp add: AddFeed_def ex_api_def ex_decoder_def ex_request_def ex_url_def
        AddFeed_loop.simps accepts_url_def ex_failing_plugin_def ex_working_plugin_def
        ex_registry_def ex_feed_store_def maxFailedResolutions_def)
  have last: "PluginForEntrypoint ex_registry ex_url
         [''a'', ''b'', ''c'', ''d'', ''e'', ''f'', ''g'', ''h'']
       = Inr (ex_failing_plugin ''i'', \<lparr>RouteParams = []\<rparr>)"
    by (simp add: ex_registry_def accepts_url_def ex_failing_plugin_def)
  have b: "length [''a'', ''b'', ''c'', ''d'', ''e'', ''f'', ''g'', ''h''] = maxFailedResolutions"
    by (simp add: maxFailedResolutions_def)
  have unset: "AddFeed (ex_api ex_feed_store [ex_unset_plugin ''fictionpress'']) ex_decoder
         ex_writer ex_request ()
       = (Inl (Panic ''nil pointer dereference''), ())"
    by (simp add: AddFeed_def ex_api_def ex_decoder_def ex_request_def ex_url_def
        AddFeed_loop.simps accepts_url_def ex_unset_plugin_def ex_feed_store_def)
  have broken: "AddFeed (ex_api ex_feed_store [ex_working_plugin ''alpha'']) ex_decoder
         ex_broken_writer ex_request ()
       = (Inl (ErrorString ''broken pipe''), ())"
    by (simp add: AddFeed_def ex_api_def ex_decoder_def ex_request_def ex_url_def
        AddFeed_loop.simps accepts_url_def ex_working_plugin_def ex_feed_store_def
        respond_def ex_broken_writer_def)
  have added: "AddFeed (ex_api ex_feed_store [ex_working_plugin ''alpha'']) ex_decoder
         ex_writer ex_request ()
       = (Inr (1, ''Example feed''), ())"
    by (simp add: AddFeed_def ex_api_def ex_decoder_def ex_request_def ex_url_def
        AddFeed_loop.simps accepts_url_def ex_working_plugin_def ex_feed_store_def
        respond_def ex_writer_def)
  from r c m l step run last b unset broken added show ?thesis by simp
qed

end
